theory Spec2Isabelle
  imports Complex_Main "HOL-Library.Word" "HOL-Library.Log_Nat"
begin

section \<open>Shared declarations (types.ts)\<close>

text \<open>
  The string enum \<^verbatim>\<open>Category\<close> has eight members; \<^verbatim>\<open>Object.values(Category)\<close> lists
  them in declaration order. \<^verbatim>\<open>ScoreBoard\<close> is \<^verbatim>\<open>Record<Category, {correct, wrong}>\<close>: a
  total table over the eight categories.
\<close>

datatype Category =
  HISTORY | SCIENCE | NATURE | SPORTS | ART | TECH | GEOGRAPHY | ENTERTAINMENT

datatype GameState = IDLE | SPINNING | THROWN | FETCHING | SHOWING_CONTENT

definition CATEGORIES :: "Category list" where
  "CATEGORIES = [HISTORY, SCIENCE, NATURE, SPORTS, ART, TECH, GEOGRAPHY, ENTERTAINMENT]"

record score =
  correct :: nat
  wrong :: nat

type_synonym ScoreBoard = "Category \<Rightarrow> score"

section \<open>App.tsx: the scoreboard\<close>

text \<open>
  The part of the \<^verbatim>\<open>App\<close> component's state that \<^verbatim>\<open>handleQuizAnswer\<close> reads and writes.
  The counters are JavaScript numbers that only ever hold small non-negative integers
  (they start at 0 and grow by 1 per answered quiz), so they are modelled as \<open>nat\<close>.
\<close>

record app_state =
  currentCategory :: "Category option"
  scores :: ScoreBoard

definition initial_scores :: ScoreBoard where
  "initial_scores = (\<lambda>c. \<lparr>correct = 0, wrong = 0\<rparr>)"

text \<open>
  \<^verbatim>\<open>if (!currentCategory) return;\<close> and then the functional update of \<^verbatim>\<open>scores\<close> that
  replaces the entry of \<^verbatim>\<open>currentCategory\<close>.
\<close>

definition handleQuizAnswer :: "bool \<Rightarrow> app_state \<Rightarrow> app_state" where
  "handleQuizAnswer isCorrect s =
     (case currentCategory s of
        None \<Rightarrow> s
      | Some c \<Rightarrow>
          s\<lparr>scores := (scores s)(c :=
               \<lparr>correct = correct (scores s c) + (if isCorrect then 1 else 0),
                wrong = wrong (scores s c) + (if isCorrect then 0 else 1)\<rparr>)\<rparr>)"

section \<open>JavaScript numbers\<close>

text \<open>
  A JavaScript number is an IEEE 754 binary64 value. A finite one is modelled by the real
  number it denotes; an arithmetic operation computes the exact real result and rounds it
  to the nearest binary64 value, ties to even (\<open>round_double\<close>). The spacing of the
  binary64 values around \<open>x\<close> is \<open>ulp x\<close>: every finite binary64 value is a multiple of
  \<open>2 ^ (-1074)\<close>, and a value with \<open>b > 53\<close> bits above that unit keeps its leading 53.
  Overflow to an infinity needs a magnitude of \<open>2 ^ 1024\<close>; the angles handled below are
  bounded by a few hundred, so the infinities and NaN do not arise there.
\<close>

function bit_length :: "int \<Rightarrow> nat" where
  "bit_length n = (if n \<le> 0 then 0 else Suc (bit_length (n div 2)))"
  by pat_completeness auto
termination
  by (relation "measure nat") auto

declare bit_length.simps [simp del]

definition round_half_even :: "real \<Rightarrow> int" where
  "round_half_even y =
     (let f = \<lfloor>y\<rfloor>; d = y - of_int f
      in if d < 1 / 2 then f else if 1 / 2 < d then f + 1 else if even f then f else f + 1)"

definition ulp :: "real \<Rightarrow> real" where
  "ulp x = 2 powi (int (max (bit_length \<lfloor>\<bar>x\<bar> * 2 ^ 1074\<rfloor>) 53) - 1127)"

definition round_double :: "real \<Rightarrow> real" where
  "round_double x = ulp x * of_int (round_half_even (x / ulp x))"

definition fadd :: "real \<Rightarrow> real \<Rightarrow> real" where
  "fadd x y = round_double (x + y)"

definition fsub :: "real \<Rightarrow> real \<Rightarrow> real" where
  "fsub x y = round_double (x - y)"

definition fmul :: "real \<Rightarrow> real \<Rightarrow> real" where
  "fmul x y = round_double (x * y)"

definition fdiv :: "real \<Rightarrow> real \<Rightarrow> real" where
  "fdiv x y = round_double (x / y)"

text \<open>
  The remainder operator \<^verbatim>\<open>%\<close> truncates the quotient towards zero, so the result has the
  sign of the dividend; it is exact (no rounding). The divisor is 360 wherever it is used.
\<close>

definition js_trunc :: "real \<Rightarrow> int" where
  "js_trunc z = (if 0 \<le> z then \<lfloor>z\<rfloor> else \<lceil>z\<rceil>)"

definition js_rem :: "real \<Rightarrow> real \<Rightarrow> real" where
  "js_rem x y = x - y * of_int (js_trunc (x / y))"

text \<open>\<^verbatim>\<open>Math.PI\<close>: the binary64 value nearest to \<open>\<pi>\<close>.\<close>

definition Math_PI :: real where
  "Math_PI = 884279719003555 / 281474976710656"

text \<open>
  Reading an array at a number: an integer index inside the array gives the element,
  anything else gives \<^verbatim>\<open>undefined\<close> (\<open>None\<close>).
\<close>

definition js_index :: "'a list \<Rightarrow> int \<Rightarrow> 'a option" where
  "js_index xs i = (if 0 \<le> i \<and> i < int (length xs) then Some (xs ! nat i) else None)"

section \<open>components/Dartboard.tsx\<close>

subsection \<open>The spin loop\<close>

text \<open>
  The component's state, its refs, the \<^verbatim>\<open>gameState\<close> prop, and the browser's list of
  pending \<^verbatim>\<open>requestAnimationFrame\<close> callbacks. A pending callback is an \<^verbatim>\<open>animate\<close> closure;
  closures differ only in the \<^verbatim>\<open>gameState\<close> they captured (\<^verbatim>\<open>useCallback(..., [gameState])\<close>),
  so a request is its handle and that captured value. Handles start at 1. The dart marker
  (\<^verbatim>\<open>darts\<close>) is display state that nothing reads back and is left out.
\<close>

record dartboard_state =
  rotation :: real
  animationFrameRef :: nat
  lastTimeRef :: real
  speedRef :: real
  gameState :: GameState
  frame_requests :: "(nat \<times> GameState) list"
  next_handle :: nat

definition requestAnimationFrame :: "GameState \<Rightarrow> dartboard_state \<Rightarrow> dartboard_state" where
  "requestAnimationFrame g s =
     s\<lparr>frame_requests := frame_requests s @ [(next_handle s, g)],
       animationFrameRef := next_handle s,
       next_handle := Suc (next_handle s)\<rparr>"

definition cancelAnimationFrame :: "nat \<Rightarrow> dartboard_state \<Rightarrow> dartboard_state" where
  "cancelAnimationFrame h s =
     s\<lparr>frame_requests := filter (\<lambda>r. fst r \<noteq> h) (frame_requests s)\<rparr>"

text \<open>
  \<^verbatim>\<open>animate(time)\<close>, for the closure that captured \<open>g\<close>: rotate unless \<^verbatim>\<open>lastTimeRef\<close> is 0,
  stamp the time, and ask for the next frame if the captured state is \<^verbatim>\<open>SPINNING\<close>.
\<close>

definition animate :: "GameState \<Rightarrow> real \<Rightarrow> dartboard_state \<Rightarrow> dartboard_state" where
  "animate g time s =
     (let s1 = (if lastTimeRef s \<noteq> 0
                then s\<lparr>rotation := js_rem (fadd (rotation s) (speedRef s)) 360\<rparr>
                else s);
          s2 = s1\<lparr>lastTimeRef := time\<rparr>
      in if g = SPINNING then requestAnimationFrame g s2 else s2)"

text \<open>The effect on \<^verbatim>\<open>[gameState, animate]\<close> and its cleanup.\<close>

definition spin_effect :: "dartboard_state \<Rightarrow> dartboard_state" where
  "spin_effect s =
     (if gameState s = SPINNING
      then requestAnimationFrame SPINNING (s\<lparr>speedRef := 8, lastTimeRef := 0\<rparr>)
      else if animationFrameRef s \<noteq> 0 then cancelAnimationFrame (animationFrameRef s) s
      else s)"

definition spin_cleanup :: "dartboard_state \<Rightarrow> dartboard_state" where
  "spin_cleanup s =
     (if animationFrameRef s \<noteq> 0 then cancelAnimationFrame (animationFrameRef s) s else s)"

text \<open>
  \<^verbatim>\<open>setGameState\<close>: the parent re-renders the board with the new prop; when the value
  changed, React runs the old effect's cleanup and then the effect again.
\<close>

definition setGameState :: "GameState \<Rightarrow> dartboard_state \<Rightarrow> dartboard_state" where
  "setGameState g s =
     (if g = gameState s then s else spin_effect ((spin_cleanup s)\<lparr>gameState := g\<rparr>))"

definition mount :: "GameState \<Rightarrow> dartboard_state" where
  "mount g =
     spin_effect \<lparr>rotation = 0, animationFrameRef = 0, lastTimeRef = 0, speedRef = 0,
       gameState = g, frame_requests = [], next_handle = 1\<rparr>"

text \<open>
  An animation frame: the browser takes the callbacks requested so far and calls each
  with the frame's timestamp; requests made meanwhile wait for the next frame.
\<close>

fun run_callbacks :: "(nat \<times> GameState) list \<Rightarrow> real \<Rightarrow> dartboard_state \<Rightarrow> dartboard_state" where
  "run_callbacks [] time s = s"
| "run_callbacks (r # rs) time s = run_callbacks rs time (animate (snd r) time s)"

definition frame :: "real \<Rightarrow> dartboard_state \<Rightarrow> dartboard_state" where
  "frame time s = run_callbacks (frame_requests s) time (s\<lparr>frame_requests := []\<rparr>)"

text \<open>
  What holds of the board between events: the rotation is a whole number of degrees in
  \<open>[0, 360)\<close>; while spinning exactly one callback is pending, the one
  \<^verbatim>\<open>animationFrameRef\<close> names, and the speed is 8; otherwise none is pending.
\<close>

definition spin_inv :: "dartboard_state \<Rightarrow> bool" where
  "spin_inv s \<longleftrightarrow>
     (\<exists>m. rotation s = of_int m \<and> 0 \<le> m \<and> m < 360) \<and>
     (if gameState s = SPINNING
      then frame_requests s = [(animationFrameRef s, SPINNING)] \<and> speedRef s = 8 \<and>
           animationFrameRef s \<noteq> 0
      else frame_requests s = []) \<and>
     animationFrameRef s < next_handle s"

subsection \<open>Resolving a throw\<close>

text \<open>
  \<^verbatim>\<open>handleThrow\<close> draws the hit point at random and takes \<^verbatim>\<open>Math.atan2(hitY, hitX)\<close>, a
  binary64 value between \<open>-Math_PI\<close> and \<open>Math_PI\<close> whose last bits are up to the engine's
  \<^verbatim>\<open>Math\<close> library; that value, \<open>atn\<close>, is the input here. Everything after it is
  arithmetic that IEEE 754 fixes bit for bit.
\<close>

definition hitAngleDeg_of :: "real \<Rightarrow> real" where
  "hitAngleDeg_of atn =
     (let hitAngleDeg = fadd (fdiv (fmul atn 180) Math_PI) 90
      in if hitAngleDeg < 0 then fadd hitAngleDeg 360 else hitAngleDeg)"

definition effectiveAngle_of :: "real \<Rightarrow> real \<Rightarrow> real" where
  "effectiveAngle_of hitAngleDeg rot =
     (let effectiveAngle = js_rem (fsub hitAngleDeg rot) 360
      in if effectiveAngle < 0 then fadd effectiveAngle 360 else effectiveAngle)"

definition segmentSize :: real where
  "segmentSize = fdiv 360 (real (length CATEGORIES))"

definition index_of :: "real \<Rightarrow> int" where
  "index_of effectiveAngle = \<lfloor>fdiv effectiveAngle segmentSize\<rfloor>"

definition category_of_angle :: "real \<Rightarrow> real \<Rightarrow> Category option" where
  "category_of_angle hitAngleDeg rot =
     js_index CATEGORIES (index_of (effectiveAngle_of hitAngleDeg rot))"

definition hitCategory :: "real \<Rightarrow> real \<Rightarrow> Category option" where
  "hitCategory atn rot = category_of_angle (hitAngleDeg_of atn) rot"

text \<open>
  The specification's reading of the same step: the mathematical remainder, which lies in
  \<open>[0, 360)\<close>.
\<close>

definition spec_mod360 :: "real \<Rightarrow> real" where
  "spec_mod360 x = x - 360 * of_int \<lfloor>x / 360\<rfloor>"

text \<open>
  \<^verbatim>\<open>handleThrow\<close>: nothing unless the board is spinning; otherwise the state becomes
  \<^verbatim>\<open>THROWN\<close> and \<^verbatim>\<open>onHit(hitCategory)\<close> is scheduled. The second component is the scheduled
  call's argument: \<open>None\<close> when no call is scheduled, \<open>Some None\<close> for \<^verbatim>\<open>onHit(undefined)\<close>.
\<close>

definition handleThrow :: "real \<Rightarrow> dartboard_state \<Rightarrow> dartboard_state \<times> Category option option" where
  "handleThrow atn s =
     (if gameState s \<noteq> SPINNING then (s, None)
      else (setGameState THROWN s, Some (hitCategory atn (rotation s))))"

datatype dartboard_event = SetGameState GameState | Frame real | Throw real

fun dartboard_step :: "dartboard_event \<Rightarrow> dartboard_state \<Rightarrow> dartboard_state" where
  "dartboard_step (SetGameState g) s = setGameState g s"
| "dartboard_step (Frame time) s = frame time s"
| "dartboard_step (Throw atn) s = fst (handleThrow atn s)"

fun dartboard_run :: "dartboard_event list \<Rightarrow> dartboard_state \<Rightarrow> dartboard_state" where
  "dartboard_run [] s = s"
| "dartboard_run (e # es) s = dartboard_run es (dartboard_step e s)"

section \<open>components/FactModal.tsx\<close>

subsection \<open>Exceptions and the platform\<close>

text \<open>
  A thrown exception is a value. A statement that can throw returns the exception (if any)
  beside the state it leaves behind: what it changed before throwing stays changed.
\<close>

datatype js_error =
  RangeError | InvalidCharacterError | IndexSizeError | NotSupportedError | TypeError
  | EngineError string

definition then_do ::
    "js_error option \<times> 's \<Rightarrow> ('s \<Rightarrow> js_error option \<times> 's) \<Rightarrow> js_error option \<times> 's" where
  "then_do r f = (case r of (None, s) \<Rightarrow> f s | (Some e, s) \<Rightarrow> (Some e, s))"

definition try_catch ::
    "js_error option \<times> 's \<Rightarrow> (js_error \<Rightarrow> 's \<Rightarrow> js_error option \<times> 's) \<Rightarrow> js_error option \<times> 's" where
  "try_catch r handler = (case r of (None, s) \<Rightarrow> (None, s) | (Some e, s) \<Rightarrow> handler e s)"

text \<open>
  Numbers that can be non-finite: \<^verbatim>\<open>dataInt16.length / numChannels\<close> is \<^verbatim>\<open>Infinity\<close> or \<^verbatim>\<open>NaN\<close>
  for \<^verbatim>\<open>numChannels = 0\<close>, and reading a typed array out of range gives \<^verbatim>\<open>undefined\<close>, which
  divided by 32768 is \<^verbatim>\<open>NaN\<close>.
\<close>

datatype js_number = Number real | PosInfinity | NotANumber

record audio_buffer =
  sampleRate :: nat
  channels :: "js_number list list"

datatype ctx_status = Suspended | Running | Closed

text \<open>
  An \<^verbatim>\<open>AudioContext\<close>: its \<^verbatim>\<open>state\<close>, and how its \<^verbatim>\<open>createBuffer(numberOfChannels, length,
  sampleRate)\<close> answers.
\<close>

record audio_context =
  state :: ctx_status
  createBuffer :: "nat \<Rightarrow> js_number \<Rightarrow> nat \<Rightarrow> js_error + audio_buffer"

text \<open>
  How the browser answers the platform calls of one handler run: the \<^verbatim>\<open>AudioContext\<close>
  constructor, \<^verbatim>\<open>resume()\<close>, \<^verbatim>\<open>createBufferSource()\<close>, \<^verbatim>\<open>connect()\<close>, \<^verbatim>\<open>start()\<close> and
  \<^verbatim>\<open>stop()\<close>. \<open>None\<close> is success, \<open>Some e\<close> the exception thrown (for \<^verbatim>\<open>resume\<close>: the
  rejection of its promise).
\<close>

record platform =
  new_AudioContext_result :: "js_error + audio_context"
  resume_error :: "js_error option"
  createBufferSource_error :: "js_error option"
  connect_error :: "js_error option"
  start_error :: "js_error option"
  stop_error :: "js_error option"

subsection \<open>\<^verbatim>\<open>atob\<close>\<close>

text \<open>
  The browser's \<^verbatim>\<open>atob\<close> is the forgiving-base64 decode of the WHATWG Infra standard: strip
  ASCII whitespace; if the length is a multiple of 4, drop one or two trailing \<^verbatim>\<open>=\<close>; fail
  if the length is then 1 modulo 4 or a character is outside the alphabet; otherwise every
  character gives 6 bits, every 8 bits give a byte, and the 2 or 4 bits left over are
  dropped. The result is a string whose character codes are the bytes.
\<close>

definition ascii_whitespace :: "char \<Rightarrow> bool" where
  "ascii_whitespace c = (c \<in> set [CHR 0x09, CHR 0x0A, CHR 0x0C, CHR 0x0D, CHR 0x20])"

definition base64_alphabet :: string where
  "base64_alphabet = ''ABCDEFGHIJKLMNOPQRSTUVWXYZabcdefghijklmnopqrstuvwxyz0123456789+/''"

fun position :: "'a list \<Rightarrow> 'a \<Rightarrow> nat option" where
  "position [] c = None"
| "position (x # xs) c = (if x = c then Some 0 else map_option Suc (position xs c))"

fun sextets :: "string \<Rightarrow> nat list option" where
  "sextets [] = Some []"
| "sextets (c # cs) =
     (case position base64_alphabet c of
        None \<Rightarrow> None
      | Some k \<Rightarrow> map_option ((#) k) (sextets cs))"

fun octets :: "nat list \<Rightarrow> nat list" where
  "octets (a # b # c # d # r) =
     (a * 4 + b div 16) # ((b mod 16) * 16 + c div 4) # ((c mod 4) * 64 + d) # octets r"
| "octets [a, b, c] = [a * 4 + b div 16, (b mod 16) * 16 + c div 4]"
| "octets [a, b] = [a * 4 + b div 16]"
| "octets r = []"

definition strip_padding :: "string \<Rightarrow> string" where
  "strip_padding d =
     (case rev d of
        e1 # e2 # r \<Rightarrow>
          if e1 = CHR ''='' then (if e2 = CHR ''='' then rev r else rev (e2 # r)) else d
      | [e1] \<Rightarrow> if e1 = CHR ''='' then [] else d
      | [] \<Rightarrow> d)"

definition atob :: "string \<Rightarrow> js_error + nat list" where
  "atob base64 =
     (let d = filter (\<lambda>c. \<not> ascii_whitespace c) base64;
          d' = (if length d mod 4 = 0 then strip_padding d else d)
      in if length d' mod 4 = 1 then Inl InvalidCharacterError
         else case sextets d' of
                None \<Rightarrow> Inl InvalidCharacterError
              | Some ks \<Rightarrow> Inr (octets ks))"

subsection \<open>\<^verbatim>\<open>decode\<close> and \<^verbatim>\<open>decodeAudioData\<close>\<close>

text \<open>
  \<^verbatim>\<open>decode\<close>: a fresh zeroed \<^verbatim>\<open>Uint8Array(len)\<close>, filled by the loop
  \<^verbatim>\<open>bytes[i] = binaryString.charCodeAt(i)\<close>; a store into a \<^verbatim>\<open>Uint8Array\<close> keeps the low 8 bits.
\<close>

function decode_loop :: "nat list \<Rightarrow> nat \<Rightarrow> 8 word list \<Rightarrow> 8 word list" where
  "decode_loop binaryString i bytes =
     (if i < length binaryString
      then decode_loop binaryString (Suc i) (bytes[i := of_nat (binaryString ! i)])
      else bytes)"
  by pat_completeness auto
termination
  by (relation "measure (\<lambda>(binaryString, i, bytes). length binaryString - i)") auto

declare decode_loop.simps [simp del]

definition decode :: "string \<Rightarrow> js_error + 8 word list" where
  "decode base64 =
     (case atob base64 of
        Inl e \<Rightarrow> Inl e
      | Inr binaryString \<Rightarrow>
          Inr (decode_loop binaryString 0 (replicate (length binaryString) 0)))"

text \<open>
  \<^verbatim>\<open>new Int16Array(data.buffer)\<close>: a view of the whole buffer as 16-bit words. The constructor
  throws a \<^verbatim>\<open>RangeError\<close> when the buffer's byte length is not a multiple of 2. The words are
  read in the platform's byte order, little-endian on every current browser platform.
\<close>

fun int16_words :: "8 word list \<Rightarrow> 16 word list" where
  "int16_words (lo # hi # r) = of_nat (unat lo + 256 * unat hi) # int16_words r"
| "int16_words r = []"

definition new_Int16Array :: "8 word list \<Rightarrow> js_error + 16 word list" where
  "new_Int16Array data =
     (if length data mod 2 \<noteq> 0 then Inl RangeError else Inr (int16_words data))"

text \<open>
  \<^verbatim>\<open>dataInt16[k] / 32768.0\<close>: the element is read as a signed 16-bit integer; out of range
  the read is \<^verbatim>\<open>undefined\<close> and the quotient \<^verbatim>\<open>NaN\<close>. A quotient \<open>m / 2 ^ 15\<close> with
  \<open>\<bar>m\<bar> \<le> 2 ^ 15\<close> is exact in binary64 and in the \<^verbatim>\<open>Float32Array\<close> it is stored to.
\<close>

definition sample_value :: "16 word list \<Rightarrow> nat \<Rightarrow> js_number" where
  "sample_value dataInt16 k =
     (if k < length dataInt16 then Number (real_of_int (sint (dataInt16 ! k)) / 32768)
      else NotANumber)"

text \<open>A store into a typed array outside its length is ignored.\<close>

definition typed_store :: "'a list \<Rightarrow> nat \<Rightarrow> 'a \<Rightarrow> 'a list" where
  "typed_store xs i v = (if i < length xs then xs[i := v] else xs)"

definition getChannelData :: "audio_buffer \<Rightarrow> nat \<Rightarrow> js_error + js_number list" where
  "getChannelData buffer channel =
     (if channel < length (channels buffer) then Inr (channels buffer ! channel)
      else Inl IndexSizeError)"

text \<open>
  The inner loop \<^verbatim>\<open>for (let i = 0; i < frameCount; i++)\<close>, for a finite \<^verbatim>\<open>frameCount\<close>. The
  counter is compared with the quotient \<^verbatim>\<open>dataInt16.length / numChannels\<close>, which need not be
  an integer.
\<close>

function sample_loop ::
    "16 word list \<Rightarrow> nat \<Rightarrow> real \<Rightarrow> nat \<Rightarrow> nat \<Rightarrow> js_number list \<Rightarrow> js_number list" where
  "sample_loop dataInt16 numChannels frameCount channel i channelData =
     (if real i < frameCount
      then sample_loop dataInt16 numChannels frameCount channel (Suc i)
             (typed_store channelData i (sample_value dataInt16 (i * numChannels + channel)))
      else channelData)"
  by pat_completeness auto
termination
  by (relation "measure (\<lambda>(dataInt16, numChannels, frameCount, channel, i, channelData).
        nat \<lceil>frameCount\<rceil> - i)") (auto, linarith)

declare sample_loop.simps [simp del]

text \<open>
  The outer loop \<^verbatim>\<open>for (let channel = 0; channel < numChannels; channel++)\<close>;
  \<^verbatim>\<open>getChannelData\<close> hands out the buffer's own array, so the stores land in the buffer.
\<close>

function channel_loop ::
    "16 word list \<Rightarrow> nat \<Rightarrow> real \<Rightarrow> nat \<Rightarrow> audio_buffer \<Rightarrow> js_error + audio_buffer" where
  "channel_loop dataInt16 numChannels frameCount channel buffer =
     (if channel < numChannels
      then (case getChannelData buffer channel of
              Inl e \<Rightarrow> Inl e
            | Inr channelData \<Rightarrow>
                channel_loop dataInt16 numChannels frameCount (Suc channel)
                  (buffer\<lparr>channels := (channels buffer)[channel :=
                     sample_loop dataInt16 numChannels frameCount channel 0 channelData]\<rparr>))
      else Inr buffer)"
  by pat_completeness auto
termination
  by (relation "measure (\<lambda>(dataInt16, numChannels, frameCount, channel, buffer).
        numChannels - channel)") auto

declare channel_loop.simps [simp del]

text \<open>
  \<^verbatim>\<open>decodeAudioData(data, ctx, sampleRate, numChannels)\<close>. With \<^verbatim>\<open>numChannels = 0\<close> the frame
  count is \<^verbatim>\<open>Infinity\<close> (\<^verbatim>\<open>NaN\<close> for no samples) and the channel loop has no iteration.
  Otherwise the frame count is the exact quotient: the lengths are far below \<open>2 ^ 53\<close>, where
  rounding the quotient to binary64 does not change how it compares with a loop counter.
\<close>

definition decodeAudioData ::
    "8 word list \<Rightarrow> audio_context \<Rightarrow> nat \<Rightarrow> nat \<Rightarrow> js_error + audio_buffer" where
  "decodeAudioData data ctx rate numChannels =
     (case new_Int16Array data of
        Inl e \<Rightarrow> Inl e
      | Inr dataInt16 \<Rightarrow>
          if numChannels = 0
          then createBuffer ctx numChannels
                 (if length dataInt16 = 0 then NotANumber else PosInfinity) rate
          else
            (let frameCount = real (length dataInt16) / real numChannels
             in case createBuffer ctx numChannels (Number frameCount) rate of
                  Inl e \<Rightarrow> Inl e
                | Inr buffer \<Rightarrow> channel_loop dataInt16 numChannels frameCount 0 buffer))"

subsection \<open>The component's state\<close>

record QuizData =
  question :: string
  options :: "string list"
  correctAnswer :: string
  explanation :: string

datatype quiz_result = Correct | Wrong

text \<open>
  An \<^verbatim>\<open>AudioBufferSourceNode\<close> of the engine: the buffer assigned to it, whether it is
  connected, whether \<^verbatim>\<open>onended\<close> holds the component's handler, whether \<^verbatim>\<open>start()\<close> was
  called, whether it is sounding, and whether its \<^verbatim>\<open>ended\<close> event has been dispatched.
\<close>

record source_node =
  buffer :: "audio_buffer option"
  connected :: bool
  onended :: bool
  started :: bool
  playing :: bool
  ended_fired :: bool

text \<open>
  The \<^verbatim>\<open>useState\<close> cells and refs of \<^verbatim>\<open>FactModal\<close>, the \<^verbatim>\<open>isOpen\<close> prop of the last render
  (the effect's dependency), the engine's source nodes (a node is named by its position),
  the \<^verbatim>\<open>playAudio\<close> runs suspended at \<^verbatim>\<open>await resume()\<close> (each keeps the \<^verbatim>\<open>audioBase64\<close> its
  closure captured), and what \<^verbatim>\<open>console.error\<close> received.

  A handler is a closure of the render that created it: it sees the state of that render,
  not what \<^verbatim>\<open>setState\<close> calls have queued since. The only state a handler reads is
  \<^verbatim>\<open>quizResult\<close> (in \<^verbatim>\<open>handleOptionClick\<close>); \<open>rendered_quizResult\<close> is the value the handlers
  of the last render captured, \<open>quizResult\<close> the value the next render will see.
\<close>

record modal_state =
  isOpen :: bool
  isPlaying :: bool
  selectedOption :: "string option"
  quizResult :: "quiz_result option"
  rendered_quizResult :: "quiz_result option"
  audioContextRef :: "audio_context option"
  sourceNodeRef :: "nat option"
  nodes :: "source_node list"
  suspended_runs :: "string list"
  console_errors :: "js_error list"

definition initial_modal :: modal_state where
  "initial_modal =
     \<lparr>isOpen = False, isPlaying = False, selectedOption = None, quizResult = None,
      rendered_quizResult = None, audioContextRef = None, sourceNodeRef = None, nodes = [],
      suspended_runs = [], console_errors = []\<rparr>"

definition update_node :: "nat \<Rightarrow> (source_node \<Rightarrow> source_node) \<Rightarrow> modal_state \<Rightarrow> modal_state" where
  "update_node n f s =
     (if n < length (nodes s) then s\<lparr>nodes := (nodes s)[n := f (nodes s ! n)]\<rparr> else s)"

subsection \<open>\<^verbatim>\<open>stopAudio\<close>\<close>

text \<open>\<^verbatim>\<open>sourceNodeRef.current.stop()\<close>: it throws, or the node falls silent.\<close>

definition node_stop :: "platform \<Rightarrow> nat \<Rightarrow> modal_state \<Rightarrow> js_error option \<times> modal_state" where
  "node_stop p n s =
     (case stop_error p of
        Some e \<Rightarrow> (Some e, s)
      | None \<Rightarrow> (None, update_node n (\<lambda>node. node\<lparr>playing := False\<rparr>) s))"

definition stopAudio :: "platform \<Rightarrow> modal_state \<Rightarrow> js_error option \<times> modal_state" where
  "stopAudio p s =
     then_do
       (case sourceNodeRef s of
          None \<Rightarrow> (None, s)
        | Some n \<Rightarrow>
            then_do (try_catch (node_stop p n s) (\<lambda>e s'. (None, s')))
              (\<lambda>s'. (None, s'\<lparr>sourceNodeRef := None\<rparr>)))
       (\<lambda>s'. (None, s'\<lparr>isPlaying := False\<rparr>))"

subsection \<open>\<^verbatim>\<open>playAudio\<close>\<close>

text \<open>
  \<^verbatim>\<open>if (!audioContextRef.current) audioContextRef.current = new AudioContext(...)\<close>
\<close>

definition acquire_context :: "platform \<Rightarrow> modal_state \<Rightarrow> js_error option \<times> modal_state" where
  "acquire_context p s =
     (case audioContextRef s of
        Some ctx \<Rightarrow> (None, s)
      | None \<Rightarrow>
          (case new_AudioContext_result p of
             Inl e \<Rightarrow> (Some e, s)
           | Inr ctx \<Rightarrow> (None, s\<lparr>audioContextRef := Some ctx\<rparr>)))"

text \<open>
  The \<^verbatim>\<open>try\<close> block from \<^verbatim>\<open>const audioData = decode(audioBase64)\<close> to
  \<^verbatim>\<open>sourceNodeRef.current = source\<close>. Without a context, \<^verbatim>\<open>decodeAudioData\<close> gets as far as
  \<^verbatim>\<open>ctx.createBuffer\<close>, a \<^verbatim>\<open>TypeError\<close>. \<^verbatim>\<open>decodeAudioData\<close> has no \<^verbatim>\<open>await\<close> of its own, so the
  \<^verbatim>\<open>await\<close> on it resumes in a microtask: no event handler runs in between, and the other
  suspended runs that might resume there touch none of what this block reads before its
  next statement. The block is one step.
\<close>

definition schedule_playback :: "platform \<Rightarrow> string \<Rightarrow> modal_state \<Rightarrow> js_error option \<times> modal_state" where
  "schedule_playback p audioBase64 s =
     (case decode audioBase64 of
        Inl e \<Rightarrow> (Some e, s)
      | Inr audioData \<Rightarrow>
          (case audioContextRef s of
             None \<Rightarrow>
               (case new_Int16Array audioData of
                  Inl e \<Rightarrow> (Some e, s)
                | Inr dataInt16 \<Rightarrow> (Some TypeError, s))
           | Some ctx \<Rightarrow>
               (case decodeAudioData audioData ctx 24000 1 of
                  Inl e \<Rightarrow> (Some e, s)
                | Inr buf \<Rightarrow>
                    (case createBufferSource_error p of
                       Some e \<Rightarrow> (Some e, s)
                     | None \<Rightarrow>
                         (let source = length (nodes s);
                              s1 = s\<lparr>nodes := nodes s @
                                     [\<lparr>buffer = Some buf, connected = False, onended = False,
                                       started = False, playing = False, ended_fired = False\<rparr>]\<rparr>
                          in case connect_error p of
                               Some e \<Rightarrow> (Some e, s1)
                             | None \<Rightarrow>
                                 (let s2 = update_node source
                                             (\<lambda>node. node\<lparr>connected := True, onended := True\<rparr>) s1
                                  in case start_error p of
                                       Some e \<Rightarrow> (Some e, s2)
                                     | None \<Rightarrow>
                                         (None,
                                          (update_node source
                                             (\<lambda>node. node\<lparr>started := True, playing := True\<rparr>) s2)
                                          \<lparr>sourceNodeRef := Some source\<rparr>)))))))"

text \<open>The \<^verbatim>\<open>catch\<close> clause: \<^verbatim>\<open>console.error(...); setIsPlaying(false)\<close>.\<close>

definition playAudio_catch :: "js_error \<Rightarrow> modal_state \<Rightarrow> js_error option \<times> modal_state" where
  "playAudio_catch e s = (None, s\<lparr>console_errors := e # console_errors s, isPlaying := False\<rparr>)"

text \<open>
  The \<^verbatim>\<open>try\<close> block up to the first suspension. When the context is suspended the run
  stops at \<^verbatim>\<open>await audioContextRef.current.resume()\<close> and is recorded as suspended.
\<close>

definition playAudio_try :: "platform \<Rightarrow> string \<Rightarrow> modal_state \<Rightarrow> js_error option \<times> modal_state" where
  "playAudio_try p audioBase64 s =
     then_do (stopAudio p s) (\<lambda>s1.
     then_do (None, s1\<lparr>isPlaying := True\<rparr>) (\<lambda>s2.
     then_do (acquire_context p s2) (\<lambda>s3.
       if map_option state (audioContextRef s3) = Some Suspended
       then (None, s3\<lparr>suspended_runs := suspended_runs s3 @ [audioBase64]\<rparr>)
       else schedule_playback p audioBase64 s3)))"

text \<open>
  \<^verbatim>\<open>playAudio\<close>, called with the \<^verbatim>\<open>audioBase64\<close> prop of the render the handler belongs to:
  nothing for \<^verbatim>\<open>null\<close> or the empty string. The first component of the result is the
  exception that leaves the call (the rejection of the promise it returns).
\<close>

definition playAudio :: "platform \<Rightarrow> string option \<Rightarrow> modal_state \<Rightarrow> js_error option \<times> modal_state" where
  "playAudio p audioBase64 s =
     (case audioBase64 of
        None \<Rightarrow> (None, s)
      | Some b \<Rightarrow>
          if b = [] then (None, s)
          else try_catch (playAudio_try p b s) playAudio_catch)"

text \<open>
  The rest of a suspended run, when the promise of its \<^verbatim>\<open>resume()\<close> settles: a rejection
  is thrown at the \<^verbatim>\<open>await\<close>, inside the same \<^verbatim>\<open>try\<close>; otherwise the context is running.
\<close>

definition playAudio_resumed_try :: "platform \<Rightarrow> string \<Rightarrow> modal_state \<Rightarrow> js_error option \<times> modal_state" where
  "playAudio_resumed_try p audioBase64 s =
     then_do
       (case resume_error p of
          Some e \<Rightarrow> (Some e, s)
        | None \<Rightarrow>
            (None, s\<lparr>audioContextRef :=
                       map_option (\<lambda>ctx. ctx\<lparr>state := Running\<rparr>) (audioContextRef s)\<rparr>))
       (schedule_playback p audioBase64)"

definition playAudio_resumed :: "platform \<Rightarrow> nat \<Rightarrow> modal_state \<Rightarrow> js_error option \<times> modal_state" where
  "playAudio_resumed p k s =
     (if k < length (suspended_runs s)
      then try_catch
             (playAudio_resumed_try p (suspended_runs s ! k)
                (s\<lparr>suspended_runs := take k (suspended_runs s) @ drop (Suc k) (suspended_runs s)\<rparr>))
             playAudio_catch
      else (None, s))"

subsection \<open>The \<^verbatim>\<open>ended\<close> event\<close>

text \<open>
  The engine dispatches \<^verbatim>\<open>ended\<close> to a source node once, after the node has stopped
  sounding: because its buffer was played to the end, or because \<^verbatim>\<open>stop()\<close> was called on
  it. The handler installed by \<^verbatim>\<open>playAudio\<close> is \<^verbatim>\<open>() => setIsPlaying(false)\<close>.
\<close>

definition source_ended :: "nat \<Rightarrow> modal_state \<Rightarrow> modal_state" where
  "source_ended n s =
     (if n < length (nodes s) \<and> started (nodes s ! n) \<and> \<not> ended_fired (nodes s ! n)
      then (let s1 = update_node n (\<lambda>node. node\<lparr>playing := False, ended_fired := True\<rparr>) s
            in if onended (nodes s ! n) then s1\<lparr>isPlaying := False\<rparr> else s1)
      else s)"

subsection \<open>The quiz\<close>

text \<open>
  \<^verbatim>\<open>handleOptionClick\<close>, with the \<^verbatim>\<open>quizData\<close> prop of the render the handler belongs to.
  The guard \<^verbatim>\<open>if (quizResult !== null) return\<close> reads the \<^verbatim>\<open>quizResult\<close> of that render.
  \<^verbatim>\<open>option === quizData?.correctAnswer\<close> is false without quiz data. The second component
  is the argument of the \<^verbatim>\<open>onAnswerQuiz\<close> call, if one is made.
\<close>

definition handleOptionClick ::
    "QuizData option \<Rightarrow> string \<Rightarrow> modal_state \<Rightarrow> modal_state \<times> bool option" where
  "handleOptionClick quizData opt s =
     (if rendered_quizResult s \<noteq> None then (s, None)
      else
        (let isCorrect = (case quizData of None \<Rightarrow> False | Some q \<Rightarrow> opt = correctAnswer q)
         in (s\<lparr>selectedOption := Some opt,
               quizResult := Some (if isCorrect then Correct else Wrong)\<rparr>,
             Some isCorrect)))"

text \<open>
  The effect on \<^verbatim>\<open>[isOpen]\<close>: it runs after a render in which \<^verbatim>\<open>isOpen\<close> differs from the
  render before. (The scroll position it also resets is display state, left out.)
\<close>

definition open_effect :: "platform \<Rightarrow> modal_state \<Rightarrow> modal_state" where
  "open_effect p s =
     (if isOpen s then s\<lparr>selectedOption := None, quizResult := None\<rparr>
      else snd (stopAudio p s))"

text \<open>
  A render of the component creates the handlers anew, over the current state. React
  renders after a handler has queued a state change, once the handler has returned and
  before the next task; the parent's render with an \<^verbatim>\<open>isOpen\<close> prop is a render too, and
  the effect runs after it.
\<close>

definition rerender :: "modal_state \<Rightarrow> modal_state" where
  "rerender s = s\<lparr>rendered_quizResult := quizResult s\<rparr>"

definition render :: "platform \<Rightarrow> bool \<Rightarrow> modal_state \<Rightarrow> modal_state" where
  "render p isOpen' s =
     (if isOpen' = isOpen s then rerender s
      else open_effect p ((rerender s)\<lparr>isOpen := isOpen'\<rparr>))"

subsection \<open>Events\<close>

text \<open>
  What can happen to a mounted \<^verbatim>\<open>FactModal\<close>: the parent renders it with an \<^verbatim>\<open>isOpen\<close>
  prop; React renders it after a state change; an option button, the play button or the
  stop button is clicked; the promise of a suspended run's \<^verbatim>\<open>resume()\<close> settles; the engine
  dispatches \<^verbatim>\<open>ended\<close> to a node; the component unmounts (the cleanup of the
  empty-dependency effect calls \<^verbatim>\<open>stopAudio\<close>). Each step gives the next state and the
  \<^verbatim>\<open>onAnswerQuiz\<close> call it made, if any.
\<close>

datatype modal_event =
  Render platform bool
| Rerender
| OptionClick "QuizData option" string
| PlayClick platform "string option"
| StopClick platform
| ResumeSettled platform nat
| SourceEnded nat
| Unmount platform

fun modal_step :: "modal_event \<Rightarrow> modal_state \<Rightarrow> modal_state \<times> bool option" where
  "modal_step (Render p isOpen') s = (render p isOpen' s, None)"
| "modal_step Rerender s = (rerender s, None)"
| "modal_step (OptionClick quizData opt) s = handleOptionClick quizData opt s"
| "modal_step (PlayClick p audioBase64) s = (snd (playAudio p audioBase64 s), None)"
| "modal_step (StopClick p) s = (snd (stopAudio p s), None)"
| "modal_step (ResumeSettled p k) s = (snd (playAudio_resumed p k s), None)"
| "modal_step (SourceEnded n) s = (source_ended n s, None)"
| "modal_step (Unmount p) s = (snd (stopAudio p s), None)"

fun modal_run :: "modal_event list \<Rightarrow> modal_state \<Rightarrow> modal_state \<times> bool list" where
  "modal_run [] s = (s, [])"
| "modal_run (e # es) s =
     (case modal_step e s of
        (s', call) \<Rightarrow>
          (case modal_run es s' of
             (s'', calls) \<Rightarrow> (s'', (case call of None \<Rightarrow> [] | Some b \<Rightarrow> [b]) @ calls)))"

text \<open>
  A run in which React has rendered after every event, as it does when each event is a
  task of its own (a click of the user, a promise that settles, an event of the engine).
\<close>

definition committed_step :: "modal_event \<Rightarrow> modal_state \<Rightarrow> modal_state \<times> bool option" where
  "committed_step e s = (rerender (fst (modal_step e s)), snd (modal_step e s))"

fun committed_run :: "modal_event list \<Rightarrow> modal_state \<Rightarrow> modal_state \<times> bool list" where
  "committed_run [] s = (s, [])"
| "committed_run (e # es) s =
     (case committed_step e s of
        (s', call) \<Rightarrow>
          (case committed_run es s' of
             (s'', calls) \<Rightarrow> (s'', (case call of None \<Rightarrow> [] | Some b \<Rightarrow> [b]) @ calls)))"

text \<open>
  An event reopens the modal when it is a render with \<^verbatim>\<open>isOpen\<close> true after a render with
  \<^verbatim>\<open>isOpen\<close> false; \<open>no_reopen es s\<close> says that no event of the run \<open>es\<close> from \<open>s\<close> does.
\<close>

fun reopens :: "modal_event \<Rightarrow> modal_state \<Rightarrow> bool" where
  "reopens (Render p isOpen') s = (isOpen' \<and> \<not> isOpen s)"
| "reopens e s = False"

fun no_reopen :: "modal_event list \<Rightarrow> modal_state \<Rightarrow> bool" where
  "no_reopen [] s = True"
| "no_reopen (e # es) s = (\<not> reopens e s \<and> no_reopen es (fst (committed_step e s)))"

text \<open>
  A \<^verbatim>\<open>createBuffer\<close> as the Web Audio API describes it, to run the model on concrete
  input: it refuses a channel count of 0 or above 32, a length that is not at least one
  frame and a sample rate outside 3000 to 768000, and otherwise gives a silent buffer.
\<close>

definition webaudio_createBuffer :: "nat \<Rightarrow> js_number \<Rightarrow> nat \<Rightarrow> js_error + audio_buffer" where
  "webaudio_createBuffer numChannels len rate =
     (case len of
        Number q \<Rightarrow>
          if numChannels = 0 \<or> 32 < numChannels \<or> q < 1 \<or> rate < 3000 \<or> 768000 < rate
          then Inl NotSupportedError
          else Inr \<lparr>sampleRate = rate,
                    channels = replicate numChannels (replicate (nat \<lfloor>q\<rfloor>) (Number 0))\<rparr>
      | PosInfinity \<Rightarrow> Inl NotSupportedError
      | NotANumber \<Rightarrow> Inl NotSupportedError)"

definition running_context :: audio_context where
  "running_context = \<lparr>state = Running, createBuffer = webaudio_createBuffer\<rparr>"

definition working_platform :: platform where
  "working_platform =
     \<lparr>new_AudioContext_result = Inr running_context, resume_error = None,
      createBufferSource_error = None, connect_error = None, start_error = None,
      stop_error = None\<rparr>"

section \<open>Properties\<close>

subsection \<open>Rounding to binary64\<close>

text \<open>
  \<open>bit_length\<close> is the library's \<open>bitlen\<close>, which gives the binade of a scaled value; from
  it, the spacing in a binade \<open>[2 ^ e, 2 ^ (e+1))\<close> of normal numbers is \<open>2 ^ (e-52)\<close>. This gives a rule
  to round a given number by hand, and shows that integers below \<open>2 ^ 53\<close> are not rounded.
\<close>

lemma bit_length_eq_bitlen: "int (bit_length n) = bitlen n"
proof (induction n rule: bit_length.induct)
  case (1 n)
  show ?case
  proof (cases "n \<le> 0")
    case True
    then show ?thesis by (simp add: bit_length.simps bitlen_alt_def)
  next
    case False
    with 1 have "int (bit_length (n div 2)) = bitlen (n div 2)" by simp
    with False show ?thesis
      by (subst bit_length.simps, subst compute_bitlen) simp
  qed
qed

lemma bit_length_eqI:
  assumes "2 ^ k \<le> n" "n < 2 ^ Suc k"
  shows "bit_length n = Suc k"
proof -
  have pos: "0 < n" using assms(1) by (smt (verit) zero_less_power)
  have "bitlen n \<le> int (Suc k)"
    using assms(2) by (simp add: bitlen_le_iff_power nat_add_distrib)
  moreover have "\<not> bitlen n \<le> int k"
    using assms(1) pos by (simp add: bitlen_le_iff_power)
  ultimately have "bitlen n = int (Suc k)" by linarith
  then show ?thesis using bit_length_eq_bitlen[of n] by simp
qed

lemma ulp_pos: "0 < ulp x"
  by (simp add: ulp_def)

lemma floor_scaled_bounds:
  fixes a :: real
  assumes lo: "2 powi e \<le> a" and hi: "a < 2 powi (e + 1)" and k: "int k = e + int n"
  shows "2 ^ k \<le> \<lfloor>a * 2 ^ n\<rfloor>" and "\<lfloor>a * 2 ^ n\<rfloor> < 2 ^ Suc k"
proof -
  have p1: "(2::real) powi e * 2 ^ n = 2 ^ k"
    using k by (simp add: power_int_add flip: power_int_of_nat)
  have p2: "(2::real) powi (e + 1) * 2 ^ n = 2 ^ Suc k"
    using p1 by (simp add: power_int_add)
  have "(2::real) ^ k \<le> a * 2 ^ n"
    using lo p1 by (metis mult_right_mono zero_le_numeral zero_le_power)
  then have "of_int (2 ^ k) \<le> a * 2 ^ n" by simp
  then show "2 ^ k \<le> \<lfloor>a * 2 ^ n\<rfloor>" by (simp only: le_floor_iff)
  have "a * 2 ^ n < 2 ^ Suc k"
    using hi p2 by (metis mult_strict_right_mono zero_less_numeral zero_less_power)
  then have "a * 2 ^ n < of_int (2 ^ Suc k)" by simp
  then show "\<lfloor>a * 2 ^ n\<rfloor> < 2 ^ Suc k" by (simp only: floor_less_iff)
qed

lemma ulp_eqI:
  assumes lo: "2 powi e \<le> \<bar>x\<bar>" and hi: "\<bar>x\<bar> < 2 powi (e + 1)" and e: "- 1022 \<le> e"
  shows "ulp x = 2 powi (e - 52)"
proof -
  define k where "k = nat (e + 1074)"
  have ke: "int k = e + int 1074" using e by (simp add: k_def)
  have "bit_length \<lfloor>\<bar>x\<bar> * 2 ^ 1074\<rfloor> = Suc k"
    by (rule bit_length_eqI[OF floor_scaled_bounds[OF lo hi ke]])
  moreover have "53 \<le> Suc k" using ke e by linarith
  moreover have "int (Suc k) - 1127 = e - 52" using ke by simp
  ultimately show ?thesis
    unfolding ulp_def by (simp only: max_absorb1)
qed

lemma round_double_eqI:
  assumes "2 powi e \<le> \<bar>x\<bar>" "\<bar>x\<bar> < 2 powi (e + 1)" "- 1022 \<le> e"
  shows "round_double x = 2 powi (e - 52) * of_int (round_half_even (x / 2 powi (e - 52)))"
  by (simp add: round_double_def ulp_eqI[OF assms])

lemma round_double_evalI:
  assumes "2 powi e \<le> \<bar>x\<bar>" "\<bar>x\<bar> < 2 powi (e + 1)" "- 1022 \<le> e"
    and "round_half_even (x / 2 powi (e - 52)) = m"
    and "2 powi (e - 52) * of_int m = y"
  shows "round_double x = y"
  using round_double_eqI[OF assms(1-3)] assms(4,5) by simp

lemma round_half_even_of_int: "round_half_even (of_int m) = m"
  by (simp add: round_half_even_def)

lemma round_half_even_nonneg: "0 \<le> y \<Longrightarrow> 0 \<le> round_half_even y"
  by (auto simp: round_half_even_def Let_def)

lemma round_double_nonneg: "0 \<le> x \<Longrightarrow> 0 \<le> round_double x"
  using ulp_pos[of x] by (simp add: round_double_def round_half_even_nonneg)

lemma round_double_zero: "round_double 0 = 0"
  by (simp add: round_double_def round_half_even_def)

lemma round_double_of_int:
  assumes "\<bar>m\<bar> < 2 ^ 53"
  shows "round_double (of_int m) = of_int m"
proof (cases "m = 0")
  case True
  then show ?thesis by (simp add: round_double_zero)
next
  case False
  define a where "a = \<bar>m\<bar>"
  have apos: "0 < a" using False by (simp add: a_def)
  define j where "j = nat (bitlen a - 1)"
  have b1: "1 \<le> bitlen a" using apos by (simp add: bitlen_alt_def)
  have sj: "Suc j = nat (bitlen a)" using b1 by (simp add: j_def)
  have lo: "2 ^ j \<le> a" and hi: "a < 2 ^ Suc j"
    using bitlen_bounds[OF apos] unfolding sj by (simp_all add: j_def)
  have "(2::int) ^ j < 2 ^ 53" using lo assms by (simp add: a_def)
  then have "j < 53" by (rule power_less_imp_less_exp[rotated]) simp
  then have j52: "j \<le> 52" by simp
  have lo': "(2::real) powi int j \<le> \<bar>of_int m\<bar>"
  proof -
    have "real_of_int (2 ^ j) \<le> real_of_int a" using lo by (simp only: of_int_le_iff)
    then show ?thesis by (simp add: a_def)
  qed
  have hi': "\<bar>real_of_int m\<bar> < 2 powi (int j + 1)"
  proof -
    have "real_of_int a < real_of_int (2 ^ Suc j)" using hi by (simp only: of_int_less_iff)
    then show ?thesis by (simp add: a_def power_int_add)
  qed
  define d where "d = 52 - j"
  have q: "(2::real) powi (int j - 52) = 1 / 2 ^ d"
    using j52 by (simp add: d_def power_int_diff power_diff)
  have "real_of_int m / (1 / 2 ^ d) = of_int (m * 2 ^ d)" by simp
  then have "round_half_even (real_of_int m / (1 / 2 ^ d)) = m * 2 ^ d"
    by (simp only: round_half_even_of_int)
  then show ?thesis
    by (subst round_double_eqI[OF lo' hi']) (simp_all add: q)
qed

lemma round_double_numeral:
  "numeral k < (2::int) ^ 53 \<Longrightarrow> round_double (numeral k) = numeral k"
  using round_double_of_int[of "numeral k"] by simp

text \<open>
  Rounding is monotone at a value that is a multiple of the spacing: a number in
  \<open>[0, 360)\<close> is rounded to at most 360.
\<close>

lemma bit_length_le: "n < 2 ^ k \<Longrightarrow> bit_length n \<le> k"
proof -
  assume "n < 2 ^ k"
  then have "bitlen n \<le> int k" by (simp add: bitlen_le_iff_power)
  then show ?thesis using bit_length_eq_bitlen[of n] by simp
qed

lemma floor_scaled_less:
  fixes a :: real
  assumes "a < 2 ^ j"
  shows "\<lfloor>a * 2 ^ n\<rfloor> < 2 ^ (j + n)"
proof -
  have "a * 2 ^ n < 2 ^ j * 2 ^ n"
    using assms by (metis mult_strict_right_mono zero_less_numeral zero_less_power)
  then have "a * 2 ^ n < of_int (2 ^ (j + n))" by (simp add: power_add)
  then show ?thesis by (simp only: floor_less_iff)
qed

lemma ulp_below:
  assumes "\<bar>x\<bar> < 2 ^ j" "53 \<le> j + 1074"
  shows "\<exists>k. ulp x = 2 powi (int k - 1127) \<and> k \<le> j + 1074"
proof -
  have "bit_length \<lfloor>\<bar>x\<bar> * 2 ^ 1074\<rfloor> \<le> j + 1074"
    by (rule bit_length_le[OF floor_scaled_less[OF assms(1)]])
  then have "max (bit_length \<lfloor>\<bar>x\<bar> * 2 ^ 1074\<rfloor>) 53 \<le> j + 1074"
    using assms(2) by (simp only: max.bounded_iff)
  then show ?thesis unfolding ulp_def by blast
qed

lemma round_half_even_le: "y \<le> of_int m \<Longrightarrow> round_half_even y \<le> m"
proof -
  assume a: "y \<le> of_int m"
  then have f: "\<lfloor>y\<rfloor> \<le> m" by (simp add: floor_le_iff)
  show ?thesis
  proof (cases "\<lfloor>y\<rfloor> = m")
    case True
    then have "y - of_int \<lfloor>y\<rfloor> = 0" using a by linarith
    then show ?thesis using True by (simp add: round_half_even_def)
  next
    case False
    then have "\<lfloor>y\<rfloor> + 1 \<le> m" using f by simp
    then show ?thesis by (auto simp: round_half_even_def Let_def)
  qed
qed

lemma round_double_le_360:
  assumes "0 \<le> x" "x < 360"
  shows "round_double x \<le> 360"
proof -
  have "\<bar>x\<bar> < 2 ^ 9" using assms by simp
  then obtain k where u: "ulp x = 2 powi (int k - 1127)" and k: "k \<le> 9 + 1074"
    using ulp_below[of x 9] by auto
  define d where "d = 1130 - k"
  have dk: "int d = 3 - (int k - 1127)" using k by (simp add: d_def)
  have "(2::real) powi (int d + (int k - 1127)) = 2 powi (int d) * 2 powi (int k - 1127)"
    by (rule power_int_add) simp
  moreover have "int d + (int k - 1127) = 3" using dk by simp
  ultimately have "(2::real) powi 3 = 2 powi (int d) * 2 powi (int k - 1127)"
    by (simp only:)
  then have e: "(360::real) = of_int (45 * 2 ^ d) * ulp x"
    unfolding u by simp
  have "x / ulp x \<le> 360 / ulp x"
    using assms(2) ulp_pos[of x] by (simp add: divide_le_cancel)
  also have "360 / ulp x = of_int (45 * 2 ^ d)"
    using ulp_pos[of x] by (subst e) simp
  finally have "round_half_even (x / ulp x) \<le> 45 * 2 ^ d" by (rule round_half_even_le)
  then have "real_of_int (round_half_even (x / ulp x)) \<le> real_of_int (45 * 2 ^ d)"
    by (simp only: of_int_le_iff)
  then have "ulp x * real_of_int (round_half_even (x / ulp x)) \<le> ulp x * real_of_int (45 * 2 ^ d)"
    using ulp_pos[of x] by (simp only: mult_le_cancel_left_pos)
  then show ?thesis unfolding round_double_def using e by (simp add: mult.commute)
qed

subsection \<open>The remainder\<close>

lemma js_rem_of_nonneg_int:
  assumes "0 \<le> m"
  shows "js_rem (of_int m) 360 = of_int (m mod 360)"
proof -
  have "real_of_int m / 360 = real_of_int m / real_of_int 360" by simp
  then have fl: "\<lfloor>real_of_int m / 360\<rfloor> = m div 360"
    by (simp only: floor_divide_of_int_eq)
  have nn: "0 \<le> real_of_int m / 360" using assms by simp
  have "js_rem (of_int m) 360 = real_of_int m - 360 * real_of_int (m div 360)"
    unfolding js_rem_def js_trunc_def using nn fl by simp
  also have "\<dots> = real_of_int (m - 360 * (m div 360))" by simp
  also have "m - 360 * (m div 360) = m mod 360" by (simp add: minus_mult_div_eq_mod)
  finally show ?thesis .
qed

lemma js_rem_small: "\<bar>x\<bar> < 360 \<Longrightarrow> js_rem x 360 = x"
proof -
  assume a: "\<bar>x\<bar> < 360"
  have "js_trunc (x / 360) = 0"
    unfolding js_trunc_def using a by (auto simp: floor_eq_iff ceiling_eq_iff)
  then show ?thesis by (simp add: js_rem_def)
qed

lemma spec_mod360_bounds: "0 \<le> spec_mod360 x" "spec_mod360 x < 360"
proof -
  have "of_int \<lfloor>x / 360\<rfloor> \<le> x / 360" by (rule of_int_floor_le)
  then show "0 \<le> spec_mod360 x" unfolding spec_mod360_def by linarith
  have "x / 360 < of_int \<lfloor>x / 360\<rfloor> + 1" by linarith
  then show "spec_mod360 x < 360" unfolding spec_mod360_def by linarith
qed

lemma js_rem_nonneg: "0 \<le> x \<Longrightarrow> js_rem x 360 = spec_mod360 x"
  by (simp add: js_rem_def js_trunc_def spec_mod360_def)

lemma js_rem_neg:
  assumes "x < 0"
  shows "js_rem x 360 = (if spec_mod360 x = 0 then 0 else spec_mod360 x - 360)"
proof (cases "of_int \<lfloor>x / 360\<rfloor> = x / 360")
  case True
  then have "\<lceil>x / 360\<rceil> = \<lfloor>x / 360\<rfloor>" by (metis ceiling_of_int)
  with True assms show ?thesis by (simp add: js_rem_def js_trunc_def spec_mod360_def)
next
  case False
  then have c: "\<lceil>x / 360\<rceil> = \<lfloor>x / 360\<rfloor> + 1"
    by (metis ceiling_altdef)
  have "spec_mod360 x \<noteq> 0" using False by (simp add: spec_mod360_def)
  with c assms show ?thesis by (simp add: js_rem_def js_trunc_def spec_mod360_def algebra_simps)
qed

subsection \<open>The spin loop\<close>

lemma spin_inv_mount: "spin_inv (mount g)"
  by (simp add: spin_inv_def mount_def spin_effect_def requestAnimationFrame_def)

lemma spin_inv_setGameState: "spin_inv s \<Longrightarrow> spin_inv (setGameState g s)"
  by (auto simp: spin_inv_def setGameState_def spin_effect_def spin_cleanup_def
      requestAnimationFrame_def cancelAnimationFrame_def split: if_splits)

lemma fadd_8:
  assumes "0 \<le> m" "m < 360"
  shows "fadd (of_int m) 8 = of_int (m + 8)"
proof -
  have "\<bar>m + 8\<bar> < 2 ^ 53" using assms by simp
  then have "round_double (of_int (m + 8)) = of_int (m + 8)" by (rule round_double_of_int)
  then show ?thesis by (simp add: fadd_def)
qed

lemma tick_rotation:
  assumes "0 \<le> m" "m < 360"
  shows "js_rem (fadd (of_int m) 8) 360 = of_int ((m + 8) mod 360)"
    and "js_rem (fadd (of_int m) 8) 360 = spec_mod360 (of_int m + 8)"
proof -
  have nn: "0 \<le> m + 8" using assms by simp
  show "js_rem (fadd (of_int m) 8) 360 = of_int ((m + 8) mod 360)"
    unfolding fadd_8[OF assms] by (rule js_rem_of_nonneg_int[OF nn])
  have "0 \<le> real_of_int (m + 8)" using nn by (simp only: of_int_0_le_iff)
  then show "js_rem (fadd (of_int m) 8) 360 = spec_mod360 (of_int m + 8)"
    unfolding fadd_8[OF assms] using js_rem_nonneg[of "real_of_int (m + 8)"] by simp
qed

lemma frame_spinning:
  assumes "spin_inv s" "gameState s = SPINNING"
  shows "frame time s =
           requestAnimationFrame SPINNING
             ((if lastTimeRef s \<noteq> 0
               then s\<lparr>frame_requests := [], rotation := js_rem (fadd (rotation s) 8) 360\<rparr>
               else s\<lparr>frame_requests := []\<rparr>)\<lparr>lastTimeRef := time\<rparr>)"
  using assms by (simp add: spin_inv_def frame_def animate_def Let_def)

lemma frame_idle:
  assumes "spin_inv s" "gameState s \<noteq> SPINNING"
  shows "frame time s = s"
  using assms by (simp add: spin_inv_def frame_def)

lemma spin_inv_frame: "spin_inv s \<Longrightarrow> spin_inv (frame time s)"
proof (cases "gameState s = SPINNING")
  case True
  assume inv: "spin_inv s"
  then obtain m where m: "rotation s = of_int m" "0 \<le> m" "m < 360"
    by (auto simp: spin_inv_def)
  have r: "js_rem (fadd (rotation s) 8) 360 = of_int ((m + 8) mod 360)"
    unfolding m(1) by (rule tick_rotation(1)[OF m(2,3)])
  have b: "0 \<le> (m + 8) mod 360" "(m + 8) mod 360 < 360" by simp_all
  show ?thesis
    unfolding frame_spinning[OF inv True]
    using inv True m b r
    by (auto simp: spin_inv_def requestAnimationFrame_def)
next
  case False
  assume "spin_inv s"
  then show ?thesis using False by (simp add: frame_idle)
qed

lemma spin_inv_step: "spin_inv s \<Longrightarrow> spin_inv (dartboard_step e s)"
  by (cases e) (simp_all add: spin_inv_setGameState spin_inv_frame handleThrow_def)

lemma spin_inv_run: "spin_inv s \<Longrightarrow> spin_inv (dartboard_run es s)"
  by (induction es arbitrary: s) (simp_all add: spin_inv_step)

lemma rotation_setGameState: "rotation (setGameState g s) = rotation s"
  by (simp add: setGameState_def spin_effect_def spin_cleanup_def requestAnimationFrame_def
      cancelAnimationFrame_def)

lemma rotation_handleThrow: "rotation (fst (handleThrow a s)) = rotation s"
  by (simp add: handleThrow_def rotation_setGameState)

lemma rotation_step_idle:
  assumes "spin_inv s" "gameState s \<noteq> SPINNING"
  shows "rotation (dartboard_step e s) = rotation s"
  using assms by (cases e) (simp_all add: rotation_setGameState frame_idle handleThrow_def)

lemma rotation_tick:
  assumes "spin_inv s" "gameState s = SPINNING"
  shows "rotation (frame time s) =
           (if lastTimeRef s \<noteq> 0 then spec_mod360 (rotation s + 8) else rotation s)"
proof -
  from assms(1) obtain m where m: "rotation s = of_int m" "0 \<le> m" "m < 360"
    by (auto simp: spin_inv_def)
  show ?thesis
    unfolding frame_spinning[OF assms]
    using tick_rotation(2)[OF m(2,3)] m(1)
    by (simp add: requestAnimationFrame_def)
qed

lemma spin_to_8:
  "dartboard_run [Frame 16, Frame 33] (mount SPINNING) =
     \<lparr>rotation = 8, animationFrameRef = 3, lastTimeRef = 33, speedRef = 8, gameState = SPINNING,
      frame_requests = [(3, SPINNING)], next_handle = 4\<rparr>"
  by (simp add: mount_def spin_effect_def requestAnimationFrame_def frame_def animate_def
      fadd_def round_double_numeral js_rem_small Let_def)

lemma spec_mod360_small: "0 \<le> x \<Longrightarrow> x < 360 \<Longrightarrow> spec_mod360 x = x"
proof -
  assume "0 \<le> x" "x < 360"
  then have "\<lfloor>x / 360\<rfloor> = 0" by (simp add: floor_eq_iff)
  then show ?thesis by (simp add: spec_mod360_def)
qed

lemma spec_mod360_add: "spec_mod360 (spec_mod360 x + y) = spec_mod360 (x + y)"
proof -
  define k where "k = \<lfloor>x / 360\<rfloor>"
  have "(x - 360 * of_int k + y) / 360 = (x + y) / 360 - of_int k" by (simp add: field_simps)
  then have "\<lfloor>(x - 360 * of_int k + y) / 360\<rfloor> = \<lfloor>(x + y) / 360\<rfloor> - k"
    by (simp only: floor_diff_of_int)
  then show ?thesis by (simp add: spec_mod360_def k_def[symmetric] algebra_simps)
qed

lemma frame_keeps_spinning:
  assumes "spin_inv s" "gameState s = SPINNING"
  shows "gameState (frame time s) = SPINNING" and "lastTimeRef (frame time s) = time"
  unfolding frame_spinning[OF assms] using assms(2) by (simp_all add: requestAnimationFrame_def)

lemma start_spinning:
  assumes "gameState s \<noteq> SPINNING"
  shows "gameState (setGameState SPINNING s) = SPINNING"
    and "lastTimeRef (setGameState SPINNING s) = 0"
  using assms
  by (simp_all add: setGameState_def spin_effect_def spin_cleanup_def requestAnimationFrame_def
      cancelAnimationFrame_def)

lemma mount_spinning:
  "gameState (mount SPINNING) = SPINNING" "lastTimeRef (mount SPINNING) = 0"
  "rotation (mount g) = 0"
  by (simp_all add: mount_def spin_effect_def requestAnimationFrame_def)

lemma later_frames:
  "spin_inv s \<Longrightarrow> gameState s = SPINNING \<Longrightarrow> lastTimeRef s \<noteq> 0 \<Longrightarrow> 0 \<notin> set ts \<Longrightarrow>
   rotation (dartboard_run (map Frame ts) s) = spec_mod360 (rotation s + 8 * real (length ts))"
proof (induction ts arbitrary: s)
  case Nil
  from Nil(1) obtain m where "rotation s = of_int m" "0 \<le> m" "m < 360"
    by (auto simp: spin_inv_def)
  then show ?case by (simp add: spec_mod360_small)
next
  case (Cons t ts)
  have inv: "spin_inv (frame t s)" using Cons.prems(1) by (rule spin_inv_frame)
  have sp: "gameState (frame t s) = SPINNING" "lastTimeRef (frame t s) = t"
    using frame_keeps_spinning[OF Cons.prems(1,2)] by simp_all
  have t0: "lastTimeRef (frame t s) \<noteq> 0" using sp(2) Cons.prems(4) by auto
  have ts: "0 \<notin> set ts" using Cons.prems(4) by simp
  have r: "rotation (frame t s) = spec_mod360 (rotation s + 8)"
    using rotation_tick[OF Cons.prems(1,2), of t] Cons.prems(3) by simp
  have "rotation (dartboard_run (map Frame (t # ts)) s)
          = spec_mod360 (rotation (frame t s) + 8 * real (length ts))"
    using Cons.IH[OF inv sp(1) t0 ts] by simp
  also have "\<dots> = spec_mod360 (rotation s + 8 + 8 * real (length ts))"
    unfolding r by (rule spec_mod360_add)
  finally show ?case by (simp add: algebra_simps)
qed

lemma spin_frames:
  assumes "spin_inv s" "gameState s = SPINNING" "lastTimeRef s = 0" "0 \<notin> set (t # ts)"
  shows "rotation (dartboard_run (map Frame (t # ts)) s)
           = spec_mod360 (rotation s + 8 * real (length ts))"
proof -
  have inv: "spin_inv (frame t s)" using assms(1) by (rule spin_inv_frame)
  have sp: "gameState (frame t s) = SPINNING" "lastTimeRef (frame t s) = t"
    using frame_keeps_spinning[OF assms(1,2)] by simp_all
  have t0: "lastTimeRef (frame t s) \<noteq> 0" using sp(2) assms(4) by auto
  have ts: "0 \<notin> set ts" using assms(4) by simp
  have r: "rotation (frame t s) = rotation s"
    using rotation_tick[OF assms(1,2), of t] assms(3) by simp
  show ?thesis using later_frames[OF inv sp(1) t0 ts] r by simp
qed

text \<open>
  Claim C8. The rotation starts at 0 and stays in \<open>[0, 360)\<close> through every run of events.
  While the board is spinning, an animation frame replaces the rotation by
  \<open>(rotation + 8) mod 360\<close> when \<^verbatim>\<open>lastTimeRef\<close> is not 0 and leaves it as it is when
  \<^verbatim>\<open>lastTimeRef\<close> is 0; the frame records its timestamp in \<^verbatim>\<open>lastTimeRef\<close> and the board keeps
  spinning. \<^verbatim>\<open>lastTimeRef\<close> is 0 when spinning starts, at mount or by a change of state. So in
  a spin whose frames carry timestamps other than 0, the first frame leaves the rotation
  and each later one adds 8 modulo 360: after \<open>n + 1\<close> frames the rotation is
  \<open>(r + 8 n) mod 360\<close>. When the board is not spinning no frame callback is pending and no
  event changes the rotation.
\<close>

theorem rotation_invariant:
  "rotation (mount g) = 0 \<and>
   0 \<le> rotation (dartboard_run es (mount g)) \<and>
   rotation (dartboard_run es (mount g)) < 360 \<and>
   (gameState (dartboard_run es (mount g)) = SPINNING \<longrightarrow>
      rotation (frame time (dartboard_run es (mount g))) =
        (if lastTimeRef (dartboard_run es (mount g)) \<noteq> 0
         then spec_mod360 (rotation (dartboard_run es (mount g)) + 8)
         else rotation (dartboard_run es (mount g))) \<and>
      lastTimeRef (frame time (dartboard_run es (mount g))) = time \<and>
      gameState (frame time (dartboard_run es (mount g))) = SPINNING) \<and>
   (gameState (dartboard_run es (mount g)) \<noteq> SPINNING \<longrightarrow>
      frame_requests (dartboard_run es (mount g)) = [] \<and>
      rotation (dartboard_step e (dartboard_run es (mount g))) =
        rotation (dartboard_run es (mount g)) \<and>
      gameState (setGameState SPINNING (dartboard_run es (mount g))) = SPINNING \<and>
      lastTimeRef (setGameState SPINNING (dartboard_run es (mount g))) = 0 \<and>
      (0 \<notin> set (t # ts) \<longrightarrow>
         rotation (dartboard_run (map Frame (t # ts))
                     (setGameState SPINNING (dartboard_run es (mount g)))) =
           spec_mod360 (rotation (dartboard_run es (mount g)) + 8 * real (length ts)))) \<and>
   lastTimeRef (mount SPINNING) = 0 \<and>
   (0 \<notin> set (t # ts) \<longrightarrow>
      rotation (dartboard_run (map Frame (t # ts)) (mount SPINNING)) =
        spec_mod360 (8 * real (length ts)))"
proof -
  define s where "s = dartboard_run es (mount g)"
  have inv: "spin_inv s" unfolding s_def by (rule spin_inv_run[OF spin_inv_mount])
  then obtain m where m: "rotation s = of_int m" "0 \<le> m" "m < 360"
    by (auto simp: spin_inv_def)
  have c1: "rotation (mount g) = 0" by (rule mount_spinning(3))
  have c2: "0 \<le> rotation s" "rotation s < 360" using m by simp_all
  have c3: "gameState s = SPINNING \<longrightarrow>
      rotation (frame time s) =
        (if lastTimeRef s \<noteq> 0 then spec_mod360 (rotation s + 8) else rotation s) \<and>
      lastTimeRef (frame time s) = time \<and> gameState (frame time s) = SPINNING"
    using rotation_tick[OF inv] frame_keeps_spinning[OF inv] by simp
  have c4: "gameState s \<noteq> SPINNING \<longrightarrow>
      frame_requests s = [] \<and> rotation (dartboard_step e s) = rotation s \<and>
      gameState (setGameState SPINNING s) = SPINNING \<and>
      lastTimeRef (setGameState SPINNING s) = 0 \<and>
      (0 \<notin> set (t # ts) \<longrightarrow>
         rotation (dartboard_run (map Frame (t # ts)) (setGameState SPINNING s)) =
           spec_mod360 (rotation s + 8 * real (length ts)))"
  proof
    assume ns: "gameState s \<noteq> SPINNING"
    have a: "frame_requests s = []" using inv ns by (simp add: spin_inv_def)
    have b: "rotation (dartboard_step e s) = rotation s" by (rule rotation_step_idle[OF inv ns])
    note st = start_spinning[OF ns]
    have inv': "spin_inv (setGameState SPINNING s)" using inv by (rule spin_inv_setGameState)
    have "0 \<notin> set (t # ts) \<longrightarrow>
         rotation (dartboard_run (map Frame (t # ts)) (setGameState SPINNING s)) =
           spec_mod360 (rotation s + 8 * real (length ts))"
      using spin_frames[OF inv' st] by (simp add: rotation_setGameState)
    then show "frame_requests s = [] \<and> rotation (dartboard_step e s) = rotation s \<and>
      gameState (setGameState SPINNING s) = SPINNING \<and>
      lastTimeRef (setGameState SPINNING s) = 0 \<and>
      (0 \<notin> set (t # ts) \<longrightarrow>
         rotation (dartboard_run (map Frame (t # ts)) (setGameState SPINNING s)) =
           spec_mod360 (rotation s + 8 * real (length ts)))"
      using a b st by blast
  qed
  have c5: "lastTimeRef (mount SPINNING) = 0" by (rule mount_spinning(2))
  have c6: "0 \<notin> set (t # ts) \<longrightarrow>
      rotation (dartboard_run (map Frame (t # ts)) (mount SPINNING)) =
        spec_mod360 (8 * real (length ts))"
    using spin_frames[OF spin_inv_mount mount_spinning(1,2)] mount_spinning(3)[of SPINNING]
    by simp
  show ?thesis using c1 c2 c3 c4 c5 c6 unfolding s_def by blast
qed

text \<open>
  Claim C8, the theorem at a concrete run: after the first two frames of a spin the rotation
  is 8 and a third frame makes it 16; the very first frame leaves it at 0; after the state
  has left \<^verbatim>\<open>SPINNING\<close> a frame leaves it at 8; a spin of three frames, started by a change of
  state or at mount, ends at 16.
\<close>

theorem rotation_invariant_witness:
  "rotation (dartboard_run [Frame 16, Frame 33] (mount SPINNING)) = 8 \<and>
   rotation (frame 50 (dartboard_run [Frame 16, Frame 33] (mount SPINNING))) = 16 \<and>
   rotation (frame 16 (dartboard_run [] (mount SPINNING))) = 0 \<and>
   rotation (dartboard_step (Frame 50)
     (dartboard_run [Frame 16, Frame 33, SetGameState THROWN] (mount SPINNING))) = 8 \<and>
   rotation (dartboard_run (map Frame [16, 33, 50])
     (setGameState SPINNING (dartboard_run [] (mount IDLE)))) = 16 \<and>
   rotation (dartboard_run (map Frame [16, 33, 50]) (mount SPINNING)) = 16"
proof -
  have a: "rotation (frame 50 (dartboard_run [Frame 16, Frame 33] (mount SPINNING))) = 16"
    unfolding spin_to_8
    using rotation_invariant[of SPINNING "[Frame 16, Frame 33]" 50 "Frame 50", unfolded spin_to_8]
    by (simp add: spec_mod360_def)
  have b: "rotation (frame 16 (dartboard_run [] (mount SPINNING))) = 0"
    using rotation_invariant[of SPINNING "[]" 16 "Frame 16"]
    by (simp add: mount_def spin_effect_def requestAnimationFrame_def)
  have s: "dartboard_run [Frame 16, Frame 33, SetGameState THROWN] (mount SPINNING) =
     \<lparr>rotation = 8, animationFrameRef = 3, lastTimeRef = 33, speedRef = 8, gameState = THROWN,
      frame_requests = [], next_handle = 4\<rparr>"
    using spin_to_8
    by (simp add: setGameState_def spin_cleanup_def spin_effect_def cancelAnimationFrame_def)
  have c: "rotation (dartboard_step (Frame 50)
     (dartboard_run [Frame 16, Frame 33, SetGameState THROWN] (mount SPINNING))) = 8"
    unfolding s
    using rotation_invariant[of SPINNING "[Frame 16, Frame 33, SetGameState THROWN]" 50 "Frame 50",
        unfolded s]
    by simp
  have i: "gameState (dartboard_run [] (mount IDLE)) \<noteq> SPINNING"
      "rotation (dartboard_run [] (mount IDLE)) = 0"
    by (simp_all add: mount_def spin_effect_def)
  have "rotation (dartboard_run (map Frame (16 # [33, 50]))
     (setGameState SPINNING (dartboard_run [] (mount IDLE)))) =
        spec_mod360 (rotation (dartboard_run [] (mount IDLE)) + 8 * real (length [33, 50 :: real]))"
    using rotation_invariant[of IDLE "[]" 0 "Frame 0" 16 "[33, 50]"] i(1) by simp
  then have d: "rotation (dartboard_run (map Frame [16, 33, 50])
     (setGameState SPINNING (dartboard_run [] (mount IDLE)))) = 16"
    unfolding i(2) by (simp add: spec_mod360_def)
  have "rotation (dartboard_run (map Frame (16 # [33, 50])) (mount SPINNING)) =
        spec_mod360 (8 * real (length [33, 50 :: real]))"
    using rotation_invariant[of SPINNING "[]" 0 "Frame 0" 16 "[33, 50]"] by simp
  then have e: "rotation (dartboard_run (map Frame [16, 33, 50]) (mount SPINNING)) = 16"
    by (simp add: spec_mod360_def)
  have a0: "rotation (dartboard_run [Frame 16, Frame 33] (mount SPINNING)) = 8"
    unfolding spin_to_8 by simp
  show ?thesis using a0 a b c d e by blast
qed

text \<open>
  Claim C8 as first stated, that every frame while spinning replaces the rotation by
  \<open>(rotation + 8) mod 360\<close>, fails on the first frame of a spin: \<^verbatim>\<open>lastTimeRef\<close> is 0 there, and
  the rotation stays 0 where the claim wants 8.
\<close>

theorem first_tick_keeps_rotation:
  "gameState (mount SPINNING) = SPINNING \<and>
   rotation (mount SPINNING) = 0 \<and>
   rotation (frame 16 (mount SPINNING)) = 0 \<and>
   spec_mod360 (rotation (mount SPINNING) + 8) = 8 \<and>
   rotation (frame 16 (mount SPINNING)) \<noteq> spec_mod360 (rotation (mount SPINNING) + 8)"
  by (simp add: mount_def spin_effect_def requestAnimationFrame_def frame_def animate_def
      spec_mod360_def)

subsection \<open>Resolving a throw\<close>

text \<open>
  The arithmetic of one throw, step by step: \<^verbatim>\<open>Math.atan2\<close> returned
  \<open>-4558953217973885 / 2 ^ 52\<close> (about \<open>-1.0123\<close> radians) and the rotation is 32. Each step names
  the binade of the exact result and the multiple of the spacing it rounds to.
\<close>

lemma edge_mul: "fmul (- (4558953217973885 / 4503599627370496)) 180 = - (200344623836743 / 1099511627776)"
  unfolding fmul_def
  by (rule round_double_evalI[where e = "7" and m = "-6411027962775776"])
    (simp_all add: round_half_even_def power_int_minus)

lemma edge_div: "fdiv (- (200344623836743 / 1099511627776)) (884279719003555 / 281474976710656) = - (8162774324609027 / 140737488355328)"
  unfolding fdiv_def
  by (rule round_double_evalI[where e = "5" and m = "-8162774324609027"])
    (simp_all add: round_half_even_def power_int_minus)

lemma edge_add: "fadd (- (8162774324609027 / 140737488355328)) 90 = 4503599627370493 / 140737488355328"
  unfolding fadd_def
  by (rule round_double_evalI[where e = "4" and m = "9007199254740986"])
    (simp_all add: round_half_even_def power_int_minus)

lemma edge_sub: "fsub (4503599627370493 / 140737488355328) 32 = - (3 / 140737488355328)"
  unfolding fsub_def
  by (rule round_double_evalI[where e = "-46" and m = "-6755399441055744"])
    (simp_all add: round_half_even_def power_int_minus)

lemma edge_wrap: "fadd (- (3 / 140737488355328)) 360 = 360"
  unfolding fadd_def
  by (rule round_double_evalI[where e = "8" and m = "6333186975989760"])
    (simp_all add: round_half_even_def power_int_minus)

lemma literal_sub: "fsub (3165713878692659 / 8796093022208) 0 = 3165713878692659 / 8796093022208"
  unfolding fsub_def
  by (rule round_double_evalI[where e = "8" and m = "6331427757385318"])
    (simp_all add: round_half_even_def power_int_minus)

lemma literal_div: "fdiv (3165713878692659 / 8796093022208) 45 = 1125587156868501 / 140737488355328"
  unfolding fdiv_def
  by (rule round_double_evalI[where e = "2" and m = "9004697254948008"])
    (simp_all add: round_half_even_def power_int_minus)

lemma segmentSize_eq: "segmentSize = 45"
  using round_double_of_int[of 45] by (simp add: segmentSize_def CATEGORIES_def fdiv_def)

lemma edge_hitAngle:
  "hitAngleDeg_of (- (4558953217973885 / 4503599627370496)) = 4503599627370493 / 140737488355328"
  by (simp add: hitAngleDeg_of_def Math_PI_def edge_mul edge_div edge_add)

lemma edge_effective:
  "effectiveAngle_of (4503599627370493 / 140737488355328) 32 = 360"
  by (simp add: effectiveAngle_of_def edge_sub js_rem_small edge_wrap)

lemma index_360: "index_of 360 = 8"
  using round_double_of_int[of 8] by (simp add: index_of_def segmentSize_eq fdiv_def)

lemma edge_category: "hitCategory (- (4558953217973885 / 4503599627370496)) 32 = None"
  by (simp add: hitCategory_def category_of_angle_def edge_hitAngle edge_effective index_360 js_index_def CATEGORIES_def)

lemma effectiveAngle_refines:
  "effectiveAngle_of h r =
     (if 0 \<le> fsub h r then spec_mod360 (fsub h r) else round_double (spec_mod360 (fsub h r)))"
proof (cases "0 \<le> fsub h r")
  case True
  then show ?thesis
    using spec_mod360_bounds(1)[of "fsub h r"] by (simp add: effectiveAngle_of_def js_rem_nonneg)
next
  case False
  then have neg: "fsub h r < 0" by simp
  show ?thesis
    using neg spec_mod360_bounds[of "fsub h r"]
    by (simp add: effectiveAngle_of_def js_rem_neg fadd_def round_double_zero)
qed

lemma effectiveAngle_nonneg: "0 \<le> effectiveAngle_of h r"
  unfolding effectiveAngle_refines
  using spec_mod360_bounds(1)[of "fsub h r"] by (simp add: round_double_nonneg)

lemma effectiveAngle_le_360: "effectiveAngle_of h r \<le> 360"
  unfolding effectiveAngle_refines
  using spec_mod360_bounds[of "fsub h r"] round_double_le_360[of "spec_mod360 (fsub h r)"]
  by simp

lemma index_of_eq: "index_of e = \<lfloor>fdiv e 45\<rfloor>"
  by (simp add: index_of_def segmentSize_eq)

lemma index_of_nonneg: "0 \<le> e \<Longrightarrow> 0 \<le> index_of e"
  by (simp add: index_of_eq fdiv_def round_double_nonneg)

lemma literal_359_9: "round_double (3599 / 10) = 3165713878692659 / 8796093022208"
  by (rule round_double_evalI[where e = "8" and m = "6331427757385318"])
    (simp_all add: round_half_even_def power_int_minus)

lemma first_scenario: "effectiveAngle_of 90 90 = 0" "category_of_angle 90 90 = Some HISTORY"
  by (simp_all add: category_of_angle_def effectiveAngle_of_def fsub_def round_double_zero js_rem_small
      index_of_eq fdiv_def js_index_def CATEGORIES_def)

lemma last_scenario:
  "index_of (effectiveAngle_of (round_double (3599 / 10)) 0) = 7"
  "category_of_angle (round_double (3599 / 10)) 0 = Some ENTERTAINMENT"
  by (simp_all add: category_of_angle_def literal_359_9 effectiveAngle_of_def literal_sub js_rem_small
      index_of_eq literal_div js_index_def CATEGORIES_def)

text \<open>
  What the resolver computes on every input. With \<open>x\<close> the rounded difference
  \<open>hitAngleDeg - rotation\<close>, the effective angle is the mathematical \<open>x mod 360\<close> when
  \<open>x \<ge> 0\<close> and that value rounded once more (the addition of 360) when \<open>x < 0\<close>. It is never
  negative and never above 360, the index is the floor of the effective angle divided by 45 and is never
  negative. For rotation 90 and hit angle 90 the effective angle is 0 and the category is
  the first one; for rotation 0 and hit angle 359.9 the index is 7 and the category the
  last one.
\<close>

lemma effectiveAngle_formula:
  "effectiveAngle_of h r =
     (if 0 \<le> fsub h r then spec_mod360 (fsub h r) else round_double (spec_mod360 (fsub h r))) \<and>
   0 \<le> effectiveAngle_of h r \<and>
   effectiveAngle_of h r \<le> 360 \<and>
   index_of (effectiveAngle_of h r) = \<lfloor>fdiv (effectiveAngle_of h r) 45\<rfloor> \<and>
   0 \<le> index_of (effectiveAngle_of h r) \<and>
   effectiveAngle_of 90 90 = 0 \<and>
   index_of (effectiveAngle_of 90 90) = 0 \<and>
   category_of_angle 90 90 = Some (CATEGORIES ! 0) \<and>
   index_of (effectiveAngle_of (round_double (3599 / 10)) 0) = 7 \<and>
   category_of_angle (round_double (3599 / 10)) 0 = Some (CATEGORIES ! 7)"
  using effectiveAngle_refines[of h r] effectiveAngle_nonneg[of h r] effectiveAngle_le_360[of h r]
    index_of_nonneg[OF effectiveAngle_nonneg[of h r]] first_scenario last_scenario
  by (simp add: index_of_eq CATEGORIES_def fdiv_def round_double_zero)

text \<open>
  Claim C7. The effective angle is meant to lie in \<open>[0, 360)\<close>: the resolver takes the
  remainder modulo 360 and adds 360 to a negative remainder. That addition is rounded, and
  a small negative remainder is rounded up to 360 itself. The hit angle \<open>32 - 3 / 2 ^ 47\<close> is
  what the resolver computes from the \<^verbatim>\<open>Math.atan2\<close> value \<open>-4558953217973885 / 2 ^ 52\<close> and lies
  in \<open>[0, 360)\<close>; with rotation 32 the rounded difference is \<open>-3 / 2 ^ 47\<close>, and the effective
  angle is 360 exactly, not below 360.
\<close>

theorem effectiveAngle_reaches_360:
  "hitAngleDeg_of (- (4558953217973885 / 4503599627370496)) = 4503599627370493 / 140737488355328 \<and>
   (0::real) \<le> 4503599627370493 / 140737488355328 \<and>
   (4503599627370493 / 140737488355328 :: real) < 360 \<and>
   effectiveAngle_of (4503599627370493 / 140737488355328) 32 = 360 \<and>
   \<not> effectiveAngle_of (4503599627370493 / 140737488355328) 32 < 360"
  by (simp add: edge_hitAngle edge_effective)

text \<open>
  Claim C1. The index is not kept inside \<open>[0, 7]\<close>: there is no clamp, and the run below
  ends in \<^verbatim>\<open>CATEGORIES[8]\<close>. Five frames of a spin bring the rotation to 32; a throw whose
  \<^verbatim>\<open>Math.atan2\<close> value is \<open>-4558953217973885 / 2 ^ 52\<close> then has effective angle 360 and index 8,
  and \<^verbatim>\<open>onHit\<close> is scheduled with \<^verbatim>\<open>undefined\<close>.
\<close>

theorem throw_index_out_of_range:
  "gameState (dartboard_run [Frame 16, Frame 33, Frame 50, Frame 66, Frame 83] (mount SPINNING))
     = SPINNING \<and>
   rotation (dartboard_run [Frame 16, Frame 33, Frame 50, Frame 66, Frame 83] (mount SPINNING))
     = 32 \<and>
   \<bar>- (4558953217973885 / 4503599627370496)\<bar> \<le> Math_PI \<and>
   index_of (effectiveAngle_of (hitAngleDeg_of (- (4558953217973885 / 4503599627370496))) 32) = 8 \<and>
   js_index CATEGORIES 8 = None \<and>
   snd (handleThrow (- (4558953217973885 / 4503599627370496))
          (dartboard_run [Frame 16, Frame 33, Frame 50, Frame 66, Frame 83] (mount SPINNING)))
     = Some None"
proof -
  have s: "dartboard_run [Frame 16, Frame 33, Frame 50, Frame 66, Frame 83] (mount SPINNING) =
     \<lparr>rotation = 32, animationFrameRef = 6, lastTimeRef = 83, speedRef = 8, gameState = SPINNING,
      frame_requests = [(6, SPINNING)], next_handle = 7\<rparr>"
    by (simp add: mount_def spin_effect_def requestAnimationFrame_def frame_def animate_def
        fadd_def round_double_numeral js_rem_small Let_def)
  show ?thesis
    unfolding s
    by (simp add: handleThrow_def edge_category edge_hitAngle edge_effective index_360 Math_PI_def
        js_index_def CATEGORIES_def)
qed

subsection \<open>Decoding audio\<close>

lemma decode_loop_eq:
  "i \<le> length bs \<Longrightarrow> length bytes = length bs \<Longrightarrow>
   decode_loop bs i bytes = take i bytes @ map of_nat (drop i bs)"
proof (induction bs i bytes rule: decode_loop.induct)
  case (1 bs i bytes)
  show ?case
  proof (cases "i < length bs")
    case True
    have "decode_loop bs i bytes = decode_loop bs (Suc i) (bytes[i := of_nat (bs ! i)])"
      using True by (subst decode_loop.simps) simp
    also have "\<dots> = take (Suc i) (bytes[i := of_nat (bs ! i)]) @ map of_nat (drop (Suc i) bs)"
      using True 1 by simp
    also have "take (Suc i) (bytes[i := of_nat (bs ! i)]) = take i bytes @ [of_nat (bs ! i)]"
      using True 1(3) by (simp add: take_Suc_conv_app_nth)
    also have "(take i bytes @ [of_nat (bs ! i)]) @ map of_nat (drop (Suc i) bs)
                 = take i bytes @ map of_nat (drop i bs)"
      using True by (simp add: Cons_nth_drop_Suc[symmetric])
    finally show ?thesis .
  next
    case False
    with 1(2) have "i = length bs" by simp
    then show ?thesis using 1(3) by (subst decode_loop.simps) simp
  qed
qed

lemma decode_eq:
  "decode base64 = (case atob base64 of Inl e \<Rightarrow> Inl e | Inr bs \<Rightarrow> Inr (map of_nat bs))"
  by (simp add: decode_def decode_loop_eq split: sum.splits)

lemma length_int16_words: "length (int16_words data) = length data div 2"
  by (induction data rule: int16_words.induct) simp_all

lemma int16_words_nth:
  "i < length data div 2 \<Longrightarrow>
   int16_words data ! i = of_nat (unat (data ! (2 * i)) + 256 * unat (data ! (2 * i + 1)))"
proof (induction data arbitrary: i rule: int16_words.induct)
  case (1 lo hi r)
  then show ?case by (cases i) simp_all
qed simp_all

lemma sample_loop_one:
  "i \<le> n \<Longrightarrow> length cd = n \<Longrightarrow>
   sample_loop d 1 (real n) 0 i cd = take i cd @ map (sample_value d) [i..<n]"
proof (induction d "1::nat" "real n" "0::nat" i cd rule: sample_loop.induct)
  case (1 d i cd)
  show ?case
  proof (cases "i < n")
    case True
    have "sample_loop d 1 (real n) 0 i cd
            = sample_loop d 1 (real n) 0 (Suc i) (typed_store cd i (sample_value d i))"
      using True by (subst sample_loop.simps) simp
    also have "\<dots> = take (Suc i) (typed_store cd i (sample_value d i))
                         @ map (sample_value d) [Suc i..<n]"
      using True 1 by (simp add: typed_store_def)
    also have "take (Suc i) (typed_store cd i (sample_value d i)) = take i cd @ [sample_value d i]"
      using True 1(3) by (simp add: typed_store_def take_Suc_conv_app_nth)
    also have "(take i cd @ [sample_value d i]) @ map (sample_value d) [Suc i..<n]
                 = take i cd @ map (sample_value d) [i..<n]"
      using True by (simp add: upt_conv_Cons)
    finally show ?thesis .
  next
    case False
    with 1(2) have "i = n" by simp
    then show ?thesis using 1(3) by (subst sample_loop.simps) simp
  qed
qed

lemma channel_loop_one:
  assumes "length (channels b0) = 1" "length (channels b0 ! 0) = n"
  shows "channel_loop d 1 (real n) 0 b0 = Inr (b0\<lparr>channels := [map (sample_value d) [0..<n]]\<rparr>)"
proof -
  obtain c where c: "channels b0 = [c]" using assms(1) by (cases "channels b0") simp_all
  have len: "length c = n" using assms(2) c by simp
  have "channel_loop d 1 (real n) 0 b0
          = channel_loop d 1 (real n) (Suc 0)
              (b0\<lparr>channels := (channels b0)[0 := sample_loop d 1 (real n) 0 0 (channels b0 ! 0)]\<rparr>)"
    by (subst channel_loop.simps) (simp add: getChannelData_def c)
  also have "\<dots> = Inr (b0\<lparr>channels := (channels b0)[0 := sample_loop d 1 (real n) 0 0 (channels b0 ! 0)]\<rparr>)"
    by (subst channel_loop.simps) simp
  also have "sample_loop d 1 (real n) 0 0 (channels b0 ! 0) = map (sample_value d) [0..<n]"
    using sample_loop_one[of 0 n c d] len c by simp
  finally show ?thesis by (simp add: c)
qed

lemma decodeAudioData_odd:
  "odd (length data) \<Longrightarrow> decodeAudioData data ctx rate numChannels = Inl RangeError"
  by (simp add: decodeAudioData_def new_Int16Array_def odd_iff_mod_2_eq_one)

lemma decodeAudioData_mono:
  assumes "even (length data)"
    and "createBuffer ctx 1 (Number (real (length data div 2))) 24000 = Inr b0"
    and "length (channels b0) = 1" and "length (channels b0 ! 0) = length data div 2"
  shows "decodeAudioData data ctx 24000 1 =
           Inr (b0\<lparr>channels := [map (sample_value (int16_words data)) [0..<length data div 2]]\<rparr>)"
  using assms channel_loop_one[OF assms(3,4), of "int16_words data"]
  by (simp add: decodeAudioData_def new_Int16Array_def length_int16_words even_iff_mod_2_eq_zero)

lemma sample_bounds:
  fixes w :: "16 word"
  shows "- 1 \<le> real_of_int (sint w) / 32768" "real_of_int (sint w) / 32768 < 1"
proof -
  have "- (2 ^ (LENGTH(16) - 1)) \<le> sint w" by (rule sint_ge)
  then have "- 32768 \<le> sint w" by simp
  then have "- 32768 \<le> real_of_int (sint w)" by linarith
  then show "- 1 \<le> real_of_int (sint w) / 32768" by simp
  have "sint w < 2 ^ (LENGTH(16) - 1)" by (rule sint_lt)
  then have "sint w < 32768" by simp
  then have "real_of_int (sint w) < 32768" by linarith
  then show "real_of_int (sint w) / 32768 < 1" by simp
qed

lemma atob_QUJD: "atob ''QUJD'' = Inr [65, 66, 67]"
  by (simp add: atob_def ascii_whitespace_def strip_padding_def base64_alphabet_def)

lemma atob_AID: "atob ''AID/fw=='' = Inr [0, 128, 255, 127]"
  by (simp add: atob_def ascii_whitespace_def strip_padding_def base64_alphabet_def)

lemma decode_AID: "decode ''AID/fw=='' = Inr [0, 128, 255, 127]"
  by (simp add: decode_eq atob_AID)

lemma decode_QUJD: "decode ''QUJD'' = Inr [65, 66, 67]"
  by (simp add: decode_eq atob_QUJD)

lemma replicate_2: "replicate 2 x = [x, x]"
  by (simp add: numeral_2_eq_2)

lemma running_context_state: "state running_context = Running"
  by (simp add: running_context_def)

lemma decodeAudioData_AID:
  "decodeAudioData [0, 128, 255, 127] running_context 24000 1 =
     Inr \<lparr>sampleRate = 24000, channels = [[Number (- 1), Number (32767 / 32768)]]\<rparr>"
proof -
  have "decodeAudioData [0, 128, 255, 127] running_context 24000 1 =
          Inr (\<lparr>sampleRate = 24000, channels = [[Number 0, Number 0]]\<rparr>
                \<lparr>channels := [map (sample_value (int16_words [0, 128, 255, 127]))
                                [0..<length [0, 128, 255, 127 :: 8 word] div 2]]\<rparr>)"
    by (rule decodeAudioData_mono)
      (simp_all add: running_context_def webaudio_createBuffer_def replicate_2)
  then show ?thesis by (simp add: sample_value_def)
qed

lemma atob_space: "atob '' '' = Inr []"
  by (simp add: atob_def ascii_whitespace_def strip_padding_def base64_alphabet_def)

lemma decode_space: "decode '' '' = Inr []"
  by (simp add: decode_eq atob_space)

lemma decode_empty: "decode [] = Inr []"
  by (simp add: decode_eq atob_def ascii_whitespace_def strip_padding_def base64_alphabet_def)

lemma decode_odd_nonempty: "decode b = Inr data \<Longrightarrow> odd (length data) \<Longrightarrow> b \<noteq> []"
  using decode_empty by auto

lemma webaudio_empty:
  "createBuffer ctx = webaudio_createBuffer \<Longrightarrow> decodeAudioData [] ctx 24000 1 = Inl NotSupportedError"
  by (simp add: decodeAudioData_def new_Int16Array_def webaudio_createBuffer_def)

lemma webaudio_nonempty:
  assumes "even (length data)" "data \<noteq> []" "createBuffer ctx = webaudio_createBuffer"
  shows "decodeAudioData data ctx 24000 1 =
           Inr \<lparr>sampleRate = 24000,
                channels = [map (sample_value (int16_words data)) [0..<length data div 2]]\<rparr>"
proof -
  have "0 < length data" using assms(2) by simp
  then have pos: "1 \<le> length data div 2" using assms(1) by (cases "length data div 2") auto
  have "decodeAudioData data ctx 24000 1 =
          Inr (\<lparr>sampleRate = 24000, channels = [replicate (length data div 2) (Number 0)]\<rparr>
                \<lparr>channels := [map (sample_value (int16_words data)) [0..<length data div 2]]\<rparr>)"
    by (rule decodeAudioData_mono[OF assms(1)])
      (use pos in \<open>simp_all add: assms(3) webaudio_createBuffer_def\<close>)
  then show ?thesis by simp
qed


lemma sample_map:
  "map (sample_value (int16_words data)) [0..<length data div 2]
     = map (\<lambda>i. Number (real_of_int (sint (int16_words data ! (i * 1 + 0))) / 32768))
         [0..<length data div 2]"
  by (rule map_cong) (simp_all add: sample_value_def length_int16_words)

lemma running_context_createBuffer: "createBuffer running_context = webaudio_createBuffer"
  by (simp add: running_context_def)

text \<open>
  Claim C3. For bytes of even length that are not empty, the default sample rate 24000 and
  one channel, on a context whose \<^verbatim>\<open>createBuffer\<close> is the one the Web Audio API describes,
  \<^verbatim>\<open>decodeAudioData\<close> returns a one-channel buffer of \<open>byteLength / 2\<close> frames at 24000 Hz with
  \<open>channelData[0][i] = samples[i * 1 + 0] / 32768\<close> for every frame \<open>i\<close>. The same holds on any
  context whose \<^verbatim>\<open>createBuffer\<close> hands out the one-channel buffer of \<open>byteLength / 2\<close> frames it
  is asked for. Sample \<open>i\<close> is the little-endian signed 16-bit word of bytes \<open>2i\<close> and
  \<open>2i + 1\<close>, and every value lies in \<open>[-1, 1]\<close>. For no bytes at all the frame count is 0,
  which the Web Audio \<^verbatim>\<open>createBuffer\<close> refuses: \<^verbatim>\<open>decodeAudioData\<close> throws a
  \<^verbatim>\<open>NotSupportedError\<close>.
\<close>

theorem decodeAudioData_samples:
  "(even (length data) \<and> data \<noteq> [] \<and> createBuffer ctx = webaudio_createBuffer \<longrightarrow>
      decodeAudioData data ctx 24000 1 =
        Inr \<lparr>sampleRate = 24000,
             channels =
               [map (\<lambda>i. Number (real_of_int (sint (int16_words data ! (i * 1 + 0))) / 32768))
                  [0..<length data div 2]]\<rparr>) \<and>
   (even (length data) \<and>
    createBuffer ctx 1 (Number (real (length data div 2))) 24000 = Inr b0 \<and>
    length (channels b0) = 1 \<and> length (channels b0 ! 0) = length data div 2 \<longrightarrow>
      decodeAudioData data ctx 24000 1 =
        Inr (b0\<lparr>channels :=
               [map (\<lambda>i. Number (real_of_int (sint (int16_words data ! (i * 1 + 0))) / 32768))
                  [0..<length data div 2]]\<rparr>)) \<and>
   (\<forall>i < length data div 2.
      int16_words data ! i = of_nat (unat (data ! (2 * i)) + 256 * unat (data ! (2 * i + 1))) \<and>
      - 1 \<le> real_of_int (sint (int16_words data ! (i * 1 + 0))) / 32768 \<and>
      real_of_int (sint (int16_words data ! (i * 1 + 0))) / 32768 \<le> 1) \<and>
   (createBuffer ctx = webaudio_createBuffer \<longrightarrow>
      decodeAudioData [] ctx 24000 1 = Inl NotSupportedError)"
proof -
  have a: "even (length data) \<and> data \<noteq> [] \<and> createBuffer ctx = webaudio_createBuffer \<longrightarrow>
      decodeAudioData data ctx 24000 1 =
        Inr \<lparr>sampleRate = 24000,
             channels =
               [map (\<lambda>i. Number (real_of_int (sint (int16_words data ! (i * 1 + 0))) / 32768))
                  [0..<length data div 2]]\<rparr>"
    using webaudio_nonempty[of data ctx] unfolding sample_map by blast
  have b: "even (length data) \<and>
    createBuffer ctx 1 (Number (real (length data div 2))) 24000 = Inr b0 \<and>
    length (channels b0) = 1 \<and> length (channels b0 ! 0) = length data div 2 \<longrightarrow>
      decodeAudioData data ctx 24000 1 =
        Inr (b0\<lparr>channels :=
               [map (\<lambda>i. Number (real_of_int (sint (int16_words data ! (i * 1 + 0))) / 32768))
                  [0..<length data div 2]]\<rparr>)"
    using decodeAudioData_mono[of data ctx b0] unfolding sample_map by blast
  have c: "\<forall>i < length data div 2.
      int16_words data ! i = of_nat (unat (data ! (2 * i)) + 256 * unat (data ! (2 * i + 1))) \<and>
      - 1 \<le> real_of_int (sint (int16_words data ! (i * 1 + 0))) / 32768 \<and>
      real_of_int (sint (int16_words data ! (i * 1 + 0))) / 32768 \<le> 1"
    using sample_bounds int16_words_nth by (simp add: less_imp_le)
  have d: "createBuffer ctx = webaudio_createBuffer \<longrightarrow>
      decodeAudioData [] ctx 24000 1 = Inl NotSupportedError"
    using webaudio_empty[of ctx] by blast
  show ?thesis using a b c d by blast
qed

text \<open>
  Claim C3, the theorem at concrete payloads: \<^verbatim>\<open>AID/fw==\<close> decodes to the bytes
  \<open>00 80 FF 7F\<close>, the samples \<open>-32768\<close> and \<open>32767\<close>, the values \<open>-1\<close> and \<open>32767 / 32768\<close>; no
  bytes give a \<^verbatim>\<open>NotSupportedError\<close>.
\<close>

theorem decodeAudioData_samples_witness:
  "decode ''AID/fw=='' = Inr [0, 128, 255, 127] \<and>
   decodeAudioData [0, 128, 255, 127] running_context 24000 1 =
     Inr \<lparr>sampleRate = 24000, channels = [[Number (- 1), Number (32767 / 32768)]]\<rparr> \<and>
   int16_words [0, 128, 255, 127] ! 1 = 32767 \<and>
   decodeAudioData [] running_context 24000 1 = Inl NotSupportedError"
proof -
  note t = decodeAudioData_samples[of "[0, 128, 255, 127]" running_context
      "\<lparr>sampleRate = 24000, channels = [[Number 0, Number 0]]\<rparr>"]
  have "decodeAudioData [0, 128, 255, 127] running_context 24000 1 =
        Inr \<lparr>sampleRate = 24000,
             channels =
               [map (\<lambda>i. Number (real_of_int (sint (int16_words [0, 128, 255, 127] ! (i * 1 + 0))) / 32768))
                  [0..<length [0, 128, 255, 127 :: 8 word] div 2]]\<rparr>"
    using t by (simp add: running_context_createBuffer)
  then have a: "decodeAudioData [0, 128, 255, 127] running_context 24000 1 =
     Inr \<lparr>sampleRate = 24000, channels = [[Number (- 1), Number (32767 / 32768)]]\<rparr>"
    by simp
  have b: "decodeAudioData [] running_context 24000 1 = Inl NotSupportedError"
    using t by (simp add: running_context_createBuffer)
  have c: "int16_words [0, 128, 255, 127] ! 1 = 32767" by simp
  show ?thesis using a b c decode_AID by blast
qed

text \<open>
  Claim C3 as first stated, for every even length, fails at length 0: a base64 string of
  white space only decodes to no bytes, an even number of them, and \<^verbatim>\<open>decodeAudioData\<close>
  produces no buffer of 0 frames but throws.
\<close>

theorem empty_payload_raises:
  "decode '' '' = Inr [] \<and> even (length ([] :: 8 word list)) \<and>
   decodeAudioData [] running_context 24000 1 = Inl NotSupportedError"
  using decode_space webaudio_empty[OF running_context_createBuffer] by simp

subsection \<open>Playback\<close>

lemma stopAudio_eq:
  "stopAudio p s =
     (None, (case sourceNodeRef s of
               None \<Rightarrow> s
             | Some n \<Rightarrow> (snd (node_stop p n s))\<lparr>sourceNodeRef := None\<rparr>)\<lparr>isPlaying := False\<rparr>)"
  by (simp add: stopAudio_def then_do_def try_catch_def node_stop_def
      split: option.splits prod.splits)

lemma stopAudio_fields:
  "audioContextRef (snd (stopAudio p s)) = audioContextRef s"
  "console_errors (snd (stopAudio p s)) = console_errors s"
  "suspended_runs (snd (stopAudio p s)) = suspended_runs s"
  "length (nodes (snd (stopAudio p s))) = length (nodes s)"
  "quizResult (snd (stopAudio p s)) = quizResult s"
  "selectedOption (snd (stopAudio p s)) = selectedOption s"
  "isOpen (snd (stopAudio p s)) = isOpen s"
  by (simp_all add: stopAudio_eq node_stop_def update_node_def split: option.splits)

lemma stopAudio_twice: "stopAudio p' (snd (stopAudio p s)) = stopAudio p s"
  by (simp add: stopAudio_eq split: option.splits)

lemma acquire_fields:
  "console_errors (snd (acquire_context p s)) = console_errors s"
  "nodes (snd (acquire_context p s)) = nodes s"
  "quizResult (snd (acquire_context p s)) = quizResult s"
  "selectedOption (snd (acquire_context p s)) = selectedOption s"
  by (simp_all add: acquire_context_def split: option.splits sum.splits)

lemma schedule_fields:
  "console_errors (snd (schedule_playback p b s)) = console_errors s"
  "quizResult (snd (schedule_playback p b s)) = quizResult s"
  "selectedOption (snd (schedule_playback p b s)) = selectedOption s"
  by (simp_all add: schedule_playback_def update_node_def Let_def split: option.splits sum.splits)

lemma then_do_simps:
  "then_do (None, s) f = f s"
  "then_do (Some e, s) f = (Some e, s)"
  by (simp_all add: then_do_def)

lemma try_catch_simps:
  "try_catch (None, s) h = (None, s)"
  "try_catch (Some e, s) h = h e s"
  by (simp_all add: try_catch_def)

lemma playAudio_try_eq:
  "playAudio_try p b s =
     then_do (acquire_context p ((snd (stopAudio p s))\<lparr>isPlaying := True\<rparr>)) (\<lambda>s3.
       if map_option state (audioContextRef s3) = Some Suspended
       then (None, s3\<lparr>suspended_runs := suspended_runs s3 @ [b]\<rparr>)
       else schedule_playback p b s3)"
  unfolding playAudio_try_def by (subst stopAudio_eq) (simp add: then_do_simps stopAudio_eq)



lemma try_catch_playAudio_catch:
  "fst (try_catch r playAudio_catch) = None"
  "fst r = Some e \<Longrightarrow>
     snd (try_catch r playAudio_catch)
       = (snd r)\<lparr>console_errors := e # console_errors (snd r), isPlaying := False\<rparr>"
  "fst r = None \<Longrightarrow> snd (try_catch r playAudio_catch) = snd r"
  by (cases r; cases "fst r"; simp add: try_catch_simps playAudio_catch_def)+

lemma playAudio_no_throw: "fst (playAudio p a s) = None"
  by (simp add: playAudio_def try_catch_playAudio_catch(1) split: option.splits)








lemma play_once:
  "playAudio working_platform (Some ''AID/fw=='') initial_modal =
     (None, initial_modal\<lparr>isPlaying := True, audioContextRef := Some running_context,
        nodes := [\<lparr>buffer = Some \<lparr>sampleRate = 24000,
                                  channels = [[Number (- 1), Number (32767 / 32768)]]\<rparr>,
                   connected = True, onended = True, started = True, playing = True,
                   ended_fired = False\<rparr>],
        sourceNodeRef := Some 0\<rparr>)"
  by (simp add: playAudio_def playAudio_try_eq stopAudio_eq acquire_context_def then_do_simps
      try_catch_simps schedule_playback_def decode_AID decodeAudioData_AID[unfolded One_nat_def]
      update_node_def working_platform_def initial_modal_def running_context_state Let_def)

lemma play_twice:
  "playAudio working_platform (Some ''AID/fw=='')
     (snd (playAudio working_platform (Some ''AID/fw=='') initial_modal)) =
     (None, initial_modal\<lparr>isPlaying := True, audioContextRef := Some running_context,
        nodes := [\<lparr>buffer = Some \<lparr>sampleRate = 24000,
                                  channels = [[Number (- 1), Number (32767 / 32768)]]\<rparr>,
                   connected = True, onended = True, started = True, playing = False,
                   ended_fired = False\<rparr>,
                  \<lparr>buffer = Some \<lparr>sampleRate = 24000,
                                  channels = [[Number (- 1), Number (32767 / 32768)]]\<rparr>,
                   connected = True, onended = True, started = True, playing = True,
                   ended_fired = False\<rparr>],
        sourceNodeRef := Some 1\<rparr>)"
  unfolding play_once
  by (simp add: playAudio_def playAudio_try_eq stopAudio_eq node_stop_def acquire_context_def
      then_do_simps try_catch_simps schedule_playback_def decode_AID
      decodeAudioData_AID[unfolded One_nat_def]
      update_node_def working_platform_def initial_modal_def running_context_state Let_def)

lemma schedule_odd_any:
  assumes "decode b = Inr data" "odd (length data)"
  shows "schedule_playback p b s = (Some RangeError, s)"
  using assms
  by (simp add: schedule_playback_def decodeAudioData_odd new_Int16Array_def odd_iff_mod_2_eq_one
      split: option.splits)

lemma stopAudio_nodes: "length (nodes (snd (stopAudio p s))) = length (nodes s)"
  by (simp add: stopAudio_eq node_stop_def update_node_def split: option.splits)

lemma stopAudio_ref: "sourceNodeRef (snd (stopAudio p s)) = None"
  by (simp add: stopAudio_eq split: option.splits)

lemma playAudio_odd_suspended:
  assumes "b \<noteq> []"
    and "audioContextRef s = Some ctx \<or> audioContextRef s = None \<and> new_AudioContext_result p = Inr ctx"
    and "state ctx = Suspended"
  shows "playAudio p (Some b) s =
           (None, (snd (stopAudio p s))\<lparr>isPlaying := True, audioContextRef := Some ctx,
              suspended_runs := suspended_runs s @ [b]\<rparr>)"
proof -
  define s2 where "s2 = (snd (stopAudio p s))\<lparr>isPlaying := True\<rparr>"
  define s3 where "s3 = s2\<lparr>audioContextRef := Some ctx\<rparr>"
  have acq: "acquire_context p s2 = (None, s3)"
    using assms(2) by (auto simp: acquire_context_def s2_def s3_def stopAudio_fields)
  have ctx: "audioContextRef s3 = Some ctx" by (simp add: s3_def)
  have t: "playAudio_try p b s = (None, s3\<lparr>suspended_runs := suspended_runs s3 @ [b]\<rparr>)"
    using ctx assms(3) by (simp add: playAudio_try_eq s2_def[symmetric] acq then_do_simps)
  show ?thesis
    using assms(1) by (simp add: playAudio_def t try_catch_simps s3_def s2_def stopAudio_fields)
qed

lemma playAudio_no_context:
  assumes "b \<noteq> []" "audioContextRef s = None" "new_AudioContext_result p = Inl e"
  shows "playAudio p (Some b) s =
           (None, (snd (stopAudio p s))\<lparr>isPlaying := False,
              console_errors := e # console_errors s\<rparr>)"
proof -
  define s2 where "s2 = (snd (stopAudio p s))\<lparr>isPlaying := True\<rparr>"
  have acq: "acquire_context p s2 = (Some e, s2)"
    using assms(2,3) by (simp add: acquire_context_def s2_def stopAudio_fields)
  have t: "playAudio_try p b s = (Some e, s2)"
    by (simp add: playAudio_try_eq s2_def[symmetric] acq then_do_simps)
  show ?thesis
    using assms(1)
    by (simp add: playAudio_def t try_catch_simps playAudio_catch_def s2_def stopAudio_fields)
qed

lemma playAudio_odd_running:
  assumes "b \<noteq> []" "decode b = Inr data" "odd (length data)"
    and "audioContextRef s = Some ctx \<or> audioContextRef s = None \<and> new_AudioContext_result p = Inr ctx"
    and "state ctx \<noteq> Suspended"
  shows "playAudio p (Some b) s =
           (None, (snd (stopAudio p s))\<lparr>isPlaying := False, audioContextRef := Some ctx,
              console_errors := RangeError # console_errors s\<rparr>)"
proof -
  define s2 where "s2 = (snd (stopAudio p s))\<lparr>isPlaying := True\<rparr>"
  define s3 where "s3 = s2\<lparr>audioContextRef := Some ctx\<rparr>"
  have acq: "acquire_context p s2 = (None, s3)"
    using assms(4) by (auto simp: acquire_context_def s2_def s3_def stopAudio_fields)
  have ctx: "audioContextRef s3 = Some ctx" by (simp add: s3_def)
  have "playAudio_try p b s = schedule_playback p b s3"
    using ctx assms(5) by (simp add: playAudio_try_eq s2_def[symmetric] acq then_do_simps)
  then have t: "playAudio_try p b s = (Some RangeError, s3)"
    using schedule_odd_any[OF assms(2,3)] by simp
  show ?thesis
    using assms(1)
    by (simp add: playAudio_def t try_catch_simps playAudio_catch_def s3_def s2_def stopAudio_fields)
qed

lemma playAudio_resumed_odd:
  assumes "k < length (suspended_runs s)" "decode (suspended_runs s ! k) = Inr data"
    "odd (length data)"
  shows "playAudio_resumed p k s =
           (None,
            s\<lparr>suspended_runs := take k (suspended_runs s) @ drop (Suc k) (suspended_runs s),
              audioContextRef :=
                (case resume_error p of
                   Some e \<Rightarrow> audioContextRef s
                 | None \<Rightarrow> map_option (\<lambda>ctx. ctx\<lparr>state := Running\<rparr>) (audioContextRef s)),
              console_errors :=
                (case resume_error p of Some e \<Rightarrow> e | None \<Rightarrow> RangeError) # console_errors s,
              isPlaying := False\<rparr>)"
  using assms(1)
  by (simp add: playAudio_resumed_def playAudio_resumed_try_def then_do_simps try_catch_simps
      playAudio_catch_def schedule_odd_any[OF assms(2,3)] split: option.splits)


text \<open>
  Claim C2. When the decoded byte length is odd, the decode-to-samples step drops no byte
  and produces no sample: \<^verbatim>\<open>decodeAudioData\<close> throws a \<^verbatim>\<open>RangeError\<close>, because the 16-bit view
  cannot be built. The payload is then not empty. \<^verbatim>\<open>playAudio\<close> lets no exception out, creates
  no source node and leaves no current source node, on every path:
  \<^item> with a context (kept from before, or just constructed) that is not suspended, the
    \<^verbatim>\<open>RangeError\<close> is caught at once: it is logged and \<^verbatim>\<open>isPlaying\<close> ends false;
  \<^item> with a suspended context the run stops at \<^verbatim>\<open>await resume()\<close> before it decodes:
    \<^verbatim>\<open>isPlaying\<close> stays true and nothing is logged until the promise settles;
  \<^item> when the \<^verbatim>\<open>AudioContext\<close> cannot be constructed, that error is logged and \<^verbatim>\<open>isPlaying\<close>
    ends false.

  When the promise of a suspended run with such a payload settles, the run lets no
  exception out either, logs the rejection of \<^verbatim>\<open>resume()\<close> or else the \<^verbatim>\<open>RangeError\<close>, leaves
  \<^verbatim>\<open>isPlaying\<close> false and touches no source node.
\<close>

theorem odd_length_rejected:
  "decode b = Inr data \<and> odd (length data) \<longrightarrow>
     b \<noteq> [] \<and>
     decodeAudioData data ctx rate numChannels = Inl RangeError \<and>
     schedule_playback p b s = (Some RangeError, s) \<and>
     fst (playAudio p (Some b) s) = None \<and>
     length (nodes (snd (playAudio p (Some b) s))) = length (nodes s) \<and>
     sourceNodeRef (snd (playAudio p (Some b) s)) = None \<and>
     ((audioContextRef s = Some ctx \<or>
       audioContextRef s = None \<and> new_AudioContext_result p = Inr ctx) \<and>
      state ctx \<noteq> Suspended \<longrightarrow>
        \<not> isPlaying (snd (playAudio p (Some b) s)) \<and>
        console_errors (snd (playAudio p (Some b) s)) = RangeError # console_errors s \<and>
        suspended_runs (snd (playAudio p (Some b) s)) = suspended_runs s) \<and>
     ((audioContextRef s = Some ctx \<or>
       audioContextRef s = None \<and> new_AudioContext_result p = Inr ctx) \<and>
      state ctx = Suspended \<longrightarrow>
        isPlaying (snd (playAudio p (Some b) s)) \<and>
        console_errors (snd (playAudio p (Some b) s)) = console_errors s \<and>
        suspended_runs (snd (playAudio p (Some b) s)) = suspended_runs s @ [b]) \<and>
     (audioContextRef s = None \<and> new_AudioContext_result p = Inl e \<longrightarrow>
        \<not> isPlaying (snd (playAudio p (Some b) s)) \<and>
        console_errors (snd (playAudio p (Some b) s)) = e # console_errors s \<and>
        suspended_runs (snd (playAudio p (Some b) s)) = suspended_runs s) \<and>
     (k < length (suspended_runs s) \<and> suspended_runs s ! k = b \<longrightarrow>
        fst (playAudio_resumed p k s) = None \<and>
        \<not> isPlaying (snd (playAudio_resumed p k s)) \<and>
        console_errors (snd (playAudio_resumed p k s)) =
          (case resume_error p of Some e' \<Rightarrow> e' | None \<Rightarrow> RangeError) # console_errors s \<and>
        suspended_runs (snd (playAudio_resumed p k s)) =
          take k (suspended_runs s) @ drop (Suc k) (suspended_runs s) \<and>
        nodes (snd (playAudio_resumed p k s)) = nodes s \<and>
        sourceNodeRef (snd (playAudio_resumed p k s)) = sourceNodeRef s)"
proof (intro impI, elim conjE)
  assume d: "decode b = Inr data" and o: "odd (length data)"
  have ne: "b \<noteq> []" by (rule decode_odd_nonempty[OF d o])
  have c1: "decodeAudioData data ctx rate numChannels = Inl RangeError"
    by (rule decodeAudioData_odd[OF o])
  have c2: "schedule_playback p b s = (Some RangeError, s)"
    by (rule schedule_odd_any[OF d o])
  have c3: "fst (playAudio p (Some b) s) = None" by (rule playAudio_no_throw)
  have run: "(audioContextRef s = Some ctx \<or>
       audioContextRef s = None \<and> new_AudioContext_result p = Inr ctx) \<and>
      state ctx \<noteq> Suspended \<longrightarrow>
        \<not> isPlaying (snd (playAudio p (Some b) s)) \<and>
        console_errors (snd (playAudio p (Some b) s)) = RangeError # console_errors s \<and>
        suspended_runs (snd (playAudio p (Some b) s)) = suspended_runs s"
    using playAudio_odd_running[OF ne d o, of s ctx p] by (simp add: stopAudio_fields)
  have sus: "(audioContextRef s = Some ctx \<or>
       audioContextRef s = None \<and> new_AudioContext_result p = Inr ctx) \<and>
      state ctx = Suspended \<longrightarrow>
        isPlaying (snd (playAudio p (Some b) s)) \<and>
        console_errors (snd (playAudio p (Some b) s)) = console_errors s \<and>
        suspended_runs (snd (playAudio p (Some b) s)) = suspended_runs s @ [b]"
    using playAudio_odd_suspended[OF ne, of s ctx p] by (simp add: stopAudio_fields)
  have noc: "audioContextRef s = None \<and> new_AudioContext_result p = Inl e \<longrightarrow>
        \<not> isPlaying (snd (playAudio p (Some b) s)) \<and>
        console_errors (snd (playAudio p (Some b) s)) = e # console_errors s \<and>
        suspended_runs (snd (playAudio p (Some b) s)) = suspended_runs s"
    using playAudio_no_context[OF ne, of s p e] by (simp add: stopAudio_fields)
  have shape: "\<exists>s'. playAudio p (Some b) s = (None, s') \<and>
      length (nodes s') = length (nodes s) \<and> sourceNodeRef s' = None"
  proof (cases "audioContextRef s")
    case None
    show ?thesis
    proof (cases "new_AudioContext_result p")
      case (Inl e')
      show ?thesis
        using playAudio_no_context[OF ne None Inl] by (simp add: stopAudio_nodes stopAudio_ref)
    next
      case (Inr c)
      show ?thesis
      proof (cases "state c = Suspended")
        case True
        show ?thesis
          using playAudio_odd_suspended[OF ne _ True, of s p] None Inr
          by (simp add: stopAudio_nodes stopAudio_ref)
      next
        case False
        show ?thesis
          using playAudio_odd_running[OF ne d o _ False, of s p] None Inr
          by (simp add: stopAudio_nodes stopAudio_ref)
      qed
    qed
  next
    case (Some c)
    show ?thesis
    proof (cases "state c = Suspended")
      case True
      show ?thesis
        using playAudio_odd_suspended[OF ne _ True, of s p] Some
        by (simp add: stopAudio_nodes stopAudio_ref)
    next
      case False
      show ?thesis
        using playAudio_odd_running[OF ne d o _ False, of s p] Some
        by (simp add: stopAudio_nodes stopAudio_ref)
    qed
  qed
  then have c4: "length (nodes (snd (playAudio p (Some b) s))) = length (nodes s)"
    and c5: "sourceNodeRef (snd (playAudio p (Some b) s)) = None"
    by auto
  have res: "k < length (suspended_runs s) \<and> suspended_runs s ! k = b \<longrightarrow>
        fst (playAudio_resumed p k s) = None \<and>
        \<not> isPlaying (snd (playAudio_resumed p k s)) \<and>
        console_errors (snd (playAudio_resumed p k s)) =
          (case resume_error p of Some e' \<Rightarrow> e' | None \<Rightarrow> RangeError) # console_errors s \<and>
        suspended_runs (snd (playAudio_resumed p k s)) =
          take k (suspended_runs s) @ drop (Suc k) (suspended_runs s) \<and>
        nodes (snd (playAudio_resumed p k s)) = nodes s \<and>
        sourceNodeRef (snd (playAudio_resumed p k s)) = sourceNodeRef s"
  proof (intro impI, elim conjE)
    assume k: "k < length (suspended_runs s)" and b: "suspended_runs s ! k = b"
    show "fst (playAudio_resumed p k s) = None \<and>
        \<not> isPlaying (snd (playAudio_resumed p k s)) \<and>
        console_errors (snd (playAudio_resumed p k s)) =
          (case resume_error p of Some e' \<Rightarrow> e' | None \<Rightarrow> RangeError) # console_errors s \<and>
        suspended_runs (snd (playAudio_resumed p k s)) =
          take k (suspended_runs s) @ drop (Suc k) (suspended_runs s) \<and>
        nodes (snd (playAudio_resumed p k s)) = nodes s \<and>
        sourceNodeRef (snd (playAudio_resumed p k s)) = sourceNodeRef s"
      unfolding playAudio_resumed_odd[OF k d[folded b] o] by simp
  qed
  show "b \<noteq> [] \<and>
     decodeAudioData data ctx rate numChannels = Inl RangeError \<and>
     schedule_playback p b s = (Some RangeError, s) \<and>
     fst (playAudio p (Some b) s) = None \<and>
     length (nodes (snd (playAudio p (Some b) s))) = length (nodes s) \<and>
     sourceNodeRef (snd (playAudio p (Some b) s)) = None \<and>
     ((audioContextRef s = Some ctx \<or>
       audioContextRef s = None \<and> new_AudioContext_result p = Inr ctx) \<and>
      state ctx \<noteq> Suspended \<longrightarrow>
        \<not> isPlaying (snd (playAudio p (Some b) s)) \<and>
        console_errors (snd (playAudio p (Some b) s)) = RangeError # console_errors s \<and>
        suspended_runs (snd (playAudio p (Some b) s)) = suspended_runs s) \<and>
     ((audioContextRef s = Some ctx \<or>
       audioContextRef s = None \<and> new_AudioContext_result p = Inr ctx) \<and>
      state ctx = Suspended \<longrightarrow>
        isPlaying (snd (playAudio p (Some b) s)) \<and>
        console_errors (snd (playAudio p (Some b) s)) = console_errors s \<and>
        suspended_runs (snd (playAudio p (Some b) s)) = suspended_runs s @ [b]) \<and>
     (audioContextRef s = None \<and> new_AudioContext_result p = Inl e \<longrightarrow>
        \<not> isPlaying (snd (playAudio p (Some b) s)) \<and>
        console_errors (snd (playAudio p (Some b) s)) = e # console_errors s \<and>
        suspended_runs (snd (playAudio p (Some b) s)) = suspended_runs s) \<and>
     (k < length (suspended_runs s) \<and> suspended_runs s ! k = b \<longrightarrow>
        fst (playAudio_resumed p k s) = None \<and>
        \<not> isPlaying (snd (playAudio_resumed p k s)) \<and>
        console_errors (snd (playAudio_resumed p k s)) =
          (case resume_error p of Some e' \<Rightarrow> e' | None \<Rightarrow> RangeError) # console_errors s \<and>
        suspended_runs (snd (playAudio_resumed p k s)) =
          take k (suspended_runs s) @ drop (Suc k) (suspended_runs s) \<and>
        nodes (snd (playAudio_resumed p k s)) = nodes s \<and>
        sourceNodeRef (snd (playAudio_resumed p k s)) = sourceNodeRef s)"
    using ne c1 c2 c3 c4 c5 run sus noc res by blast
qed

text \<open>
  Claim C2, the theorem at a concrete payload: \<^verbatim>\<open>QUJD\<close> decodes to the three bytes of
  \<^verbatim>\<open>ABC\<close>. It is played on a running context, on a context constructed suspended (and the
  run resumed), and where no context can be constructed.
\<close>

theorem odd_length_rejected_witness:
  "decode ''QUJD'' = Inr [65, 66, 67] \<and>
   decodeAudioData [65, 66, 67] running_context 24000 1 = Inl RangeError \<and>
   fst (playAudio working_platform (Some ''QUJD'') initial_modal) = None \<and>
   \<not> isPlaying (snd (playAudio working_platform (Some ''QUJD'') initial_modal)) \<and>
   console_errors (snd (playAudio working_platform (Some ''QUJD'') initial_modal)) = [RangeError] \<and>
   nodes (snd (playAudio working_platform (Some ''QUJD'') initial_modal)) = [] \<and>
   isPlaying (snd (playAudio
     (working_platform\<lparr>new_AudioContext_result := Inr (running_context\<lparr>state := Suspended\<rparr>)\<rparr>)
     (Some ''QUJD'') initial_modal)) \<and>
   console_errors (snd (playAudio
     (working_platform\<lparr>new_AudioContext_result := Inr (running_context\<lparr>state := Suspended\<rparr>)\<rparr>)
     (Some ''QUJD'') initial_modal)) = [] \<and>
   \<not> isPlaying (snd (playAudio_resumed working_platform 0 (snd (playAudio
     (working_platform\<lparr>new_AudioContext_result := Inr (running_context\<lparr>state := Suspended\<rparr>)\<rparr>)
     (Some ''QUJD'') initial_modal)))) \<and>
   console_errors (snd (playAudio_resumed working_platform 0 (snd (playAudio
     (working_platform\<lparr>new_AudioContext_result := Inr (running_context\<lparr>state := Suspended\<rparr>)\<rparr>)
     (Some ''QUJD'') initial_modal)))) = [RangeError] \<and>
   \<not> isPlaying (snd (playAudio
     (working_platform\<lparr>new_AudioContext_result := Inl (EngineError ''AudioContext'')\<rparr>)
     (Some ''QUJD'') initial_modal)) \<and>
   console_errors (snd (playAudio
     (working_platform\<lparr>new_AudioContext_result := Inl (EngineError ''AudioContext'')\<rparr>)
     (Some ''QUJD'') initial_modal)) = [EngineError ''AudioContext'']"
proof -
  define sp where
    "sp = working_platform\<lparr>new_AudioContext_result := Inr (running_context\<lparr>state := Suspended\<rparr>)\<rparr>"
  define fp where
    "fp = working_platform\<lparr>new_AudioContext_result := Inl (EngineError ''AudioContext'')\<rparr>"
  define s1 where "s1 = snd (playAudio sp (Some ''QUJD'') initial_modal)"
  have o: "odd (length [65, 66, 67 :: 8 word])" by simp
  have i: "audioContextRef initial_modal = None" "console_errors initial_modal = []"
    "suspended_runs initial_modal = []" "nodes initial_modal = []"
    by (simp_all add: initial_modal_def)
  have a: "decodeAudioData [65, 66, 67] running_context 24000 1 = Inl RangeError \<and>
     fst (playAudio working_platform (Some ''QUJD'') initial_modal) = None \<and>
     \<not> isPlaying (snd (playAudio working_platform (Some ''QUJD'') initial_modal)) \<and>
     console_errors (snd (playAudio working_platform (Some ''QUJD'') initial_modal)) = [RangeError] \<and>
     nodes (snd (playAudio working_platform (Some ''QUJD'') initial_modal)) = []"
    using odd_length_rejected[where b = "''QUJD''" and data = "[65, 66, 67]"
        and ctx = running_context and rate = 24000 and numChannels = 1
        and p = working_platform and s = initial_modal] decode_QUJD o i
    by (simp add: working_platform_def running_context_state)
  have b: "isPlaying s1 \<and> console_errors s1 = [] \<and> suspended_runs s1 = [''QUJD'']"
    unfolding s1_def
    using odd_length_rejected[where b = "''QUJD''" and data = "[65, 66, 67]"
        and ctx = "running_context\<lparr>state := Suspended\<rparr>" and p = sp and s = initial_modal]
      decode_QUJD o i
    by (simp add: sp_def)
  have c: "\<not> isPlaying (snd (playAudio_resumed working_platform 0 s1)) \<and>
     console_errors (snd (playAudio_resumed working_platform 0 s1)) = [RangeError]"
    using odd_length_rejected[where b = "''QUJD''" and data = "[65, 66, 67]"
        and p = working_platform and s = s1 and k = 0] decode_QUJD o b
    by (simp add: working_platform_def)
  have d: "\<not> isPlaying (snd (playAudio fp (Some ''QUJD'') initial_modal)) \<and>
     console_errors (snd (playAudio fp (Some ''QUJD'') initial_modal)) = [EngineError ''AudioContext'']"
    using odd_length_rejected[where b = "''QUJD''" and data = "[65, 66, 67]"
        and p = fp and s = initial_modal and e = "EngineError ''AudioContext''"]
      decode_QUJD o i
    by (simp add: fp_def)
  show ?thesis
    using a b c d decode_QUJD unfolding s1_def sp_def fp_def by blast
qed

text \<open>
  Claim C2 as first stated, that the trailing byte is dropped and the rest decoded, fails
  for that payload: the decode-to-samples step throws.
\<close>

theorem odd_payload_raises:
  "decode ''QUJD'' = Inr [65, 66, 67] \<and>
   decodeAudioData [65, 66, 67] running_context 24000 1 = Inl RangeError"
  by (simp add: decode_QUJD decodeAudioData_odd)

text \<open>
  Claim C6. \<^verbatim>\<open>stopAudio\<close> throws nothing whatever the engine's \<^verbatim>\<open>stop()\<close> does, leaves
  \<^verbatim>\<open>isPlaying\<close> false and no current source node, and a second call changes nothing more;
  on the initial state (never played) it changes nothing at all.
\<close>

theorem stopAudio_idempotent:
  "fst (stopAudio p s) = None \<and>
   \<not> isPlaying (snd (stopAudio p s)) \<and>
   sourceNodeRef (snd (stopAudio p s)) = None \<and>
   stopAudio p' (snd (stopAudio p s)) = stopAudio p s \<and>
   stopAudio p initial_modal = (None, initial_modal)"
  using stopAudio_twice[of p' p s]
  by (simp add: stopAudio_eq initial_modal_def split: option.splits)



text \<open>
  Claim C4. A second \<^verbatim>\<open>playAudio\<close> while the first source is sounding stops that source
  and starts a new one, with \<^verbatim>\<open>isPlaying\<close> true. The stopped source still carries its
  \<^verbatim>\<open>onended\<close> handler; when the engine dispatches its \<^verbatim>\<open>ended\<close> event, \<^verbatim>\<open>isPlaying\<close> becomes
  false while the new source is sounding and is the current one.
\<close>

theorem superseded_session_resets_playing:
  "isPlaying (fst (modal_run [PlayClick working_platform (Some ''AID/fw==''),
                              PlayClick working_platform (Some ''AID/fw=='')] initial_modal)) \<and>
   \<not> playing (nodes (fst (modal_run [PlayClick working_platform (Some ''AID/fw==''),
                              PlayClick working_platform (Some ''AID/fw=='')] initial_modal)) ! 0) \<and>
   playing (nodes (fst (modal_run [PlayClick working_platform (Some ''AID/fw==''),
                              PlayClick working_platform (Some ''AID/fw=='')] initial_modal)) ! 1) \<and>
   \<not> isPlaying (fst (modal_run [PlayClick working_platform (Some ''AID/fw==''),
                              PlayClick working_platform (Some ''AID/fw==''),
                              SourceEnded 0] initial_modal)) \<and>
   playing (nodes (fst (modal_run [PlayClick working_platform (Some ''AID/fw==''),
                              PlayClick working_platform (Some ''AID/fw==''),
                              SourceEnded 0] initial_modal)) ! 1) \<and>
   sourceNodeRef (fst (modal_run [PlayClick working_platform (Some ''AID/fw==''),
                              PlayClick working_platform (Some ''AID/fw==''),
                              SourceEnded 0] initial_modal)) = Some 1"
proof -
  define s2 where "s2 = snd (playAudio working_platform (Some ''AID/fw=='')
     (snd (playAudio working_platform (Some ''AID/fw=='') initial_modal)))"
  have r2: "fst (modal_run [PlayClick working_platform (Some ''AID/fw==''),
              PlayClick working_platform (Some ''AID/fw=='')] initial_modal) = s2"
    by (simp add: s2_def)
  have r3: "fst (modal_run [PlayClick working_platform (Some ''AID/fw==''),
              PlayClick working_platform (Some ''AID/fw==''), SourceEnded 0] initial_modal)
            = source_ended 0 s2"
    by (simp add: s2_def)
  show ?thesis
    unfolding r2 r3 unfolding s2_def play_twice
    by (simp add: source_ended_def update_node_def initial_modal_def)
qed

subsection \<open>The quiz\<close>

lemma rerender_fields:
  "quizResult (rerender s) = quizResult s"
  "rendered_quizResult (rerender s) = quizResult s"
  "selectedOption (rerender s) = selectedOption s"
  "isOpen (rerender s) = isOpen s"
  by (simp_all add: rerender_def)

lemma handleOptionClick_answered:
  "rendered_quizResult s \<noteq> None \<Longrightarrow> handleOptionClick q opt s = (s, None)"
  by (simp add: handleOptionClick_def)

lemma handleOptionClick_call:
  "snd (handleOptionClick q opt s) = Some b \<Longrightarrow>
   quizResult (fst (handleOptionClick q opt s)) \<noteq> None"
  by (auto simp: handleOptionClick_def Let_def split: if_splits)

lemma then_do_quiz:
  assumes "quizResult (snd r) = c \<and> selectedOption (snd r) = d"
    and "\<And>s'. quizResult (snd (f s')) = quizResult s' \<and> selectedOption (snd (f s')) = selectedOption s'"
  shows "quizResult (snd (then_do r f)) = c \<and> selectedOption (snd (then_do r f)) = d"
  using assms by (cases r; cases "fst r") (auto simp: then_do_simps)

lemma playAudio_try_quiz:
  "quizResult (snd (playAudio_try p b s)) = quizResult s \<and>
   selectedOption (snd (playAudio_try p b s)) = selectedOption s"
  unfolding playAudio_try_eq
  by (rule then_do_quiz) (simp_all add: acquire_fields stopAudio_fields schedule_fields)

lemma resumed_try_quiz:
  "quizResult (snd (playAudio_resumed_try p b s)) = quizResult s \<and>
   selectedOption (snd (playAudio_resumed_try p b s)) = selectedOption s"
  unfolding playAudio_resumed_try_def
  by (rule then_do_quiz) (simp_all add: schedule_fields split: option.splits)

lemma try_catch_quiz:
  "quizResult (snd (try_catch r playAudio_catch)) = quizResult (snd r) \<and>
   selectedOption (snd (try_catch r playAudio_catch)) = selectedOption (snd r)"
  by (cases r; cases "fst r") (auto simp: try_catch_simps playAudio_catch_def)

lemma playAudio_quiz:
  "quizResult (snd (playAudio p a s)) = quizResult s \<and>
   selectedOption (snd (playAudio p a s)) = selectedOption s"
  by (simp add: playAudio_def try_catch_quiz playAudio_try_quiz split: option.splits)

lemma playAudio_resumed_quiz:
  "quizResult (snd (playAudio_resumed p k s)) = quizResult s \<and>
   selectedOption (snd (playAudio_resumed p k s)) = selectedOption s"
  by (simp add: playAudio_resumed_def try_catch_quiz resumed_try_quiz)

lemma source_ended_quiz:
  "quizResult (source_ended n s) = quizResult s \<and>
   selectedOption (source_ended n s) = selectedOption s"
  by (simp add: source_ended_def update_node_def Let_def)

lemma render_quiz:
  "\<not> (isOpen' \<and> \<not> isOpen s) \<Longrightarrow>
   quizResult (render p isOpen' s) = quizResult s \<and>
   selectedOption (render p isOpen' s) = selectedOption s"
  by (auto simp: render_def rerender_def open_effect_def stopAudio_fields)

lemma render_reopen:
  "\<not> isOpen s \<Longrightarrow>
   quizResult (render p True s) = None \<and> selectedOption (render p True s) = None"
  by (simp add: render_def rerender_def open_effect_def)

lemma committed_step_fresh:
  "rendered_quizResult (fst (committed_step e s)) = quizResult (fst (committed_step e s))"
  by (simp add: committed_step_def rerender_fields)

lemma committed_step_keeps_answer:
  assumes "rendered_quizResult s = quizResult s" "quizResult s \<noteq> None" "\<not> reopens e s"
  shows "quizResult (fst (committed_step e s)) = quizResult s \<and>
         selectedOption (fst (committed_step e s)) = selectedOption s \<and>
         snd (committed_step e s) = None"
  using assms
  by (cases e)
    (simp_all add: committed_step_def rerender_fields render_quiz handleOptionClick_answered
      playAudio_quiz playAudio_resumed_quiz source_ended_quiz stopAudio_fields)

lemma committed_step_call:
  assumes "snd (committed_step e s) = Some b"
  shows "quizResult (fst (committed_step e s)) \<noteq> None"
  using assms
  by (cases e) (simp_all add: committed_step_def rerender_fields handleOptionClick_call)

lemma committed_run_after_answer:
  "rendered_quizResult s = quizResult s \<Longrightarrow> quizResult s \<noteq> None \<Longrightarrow> no_reopen es s \<Longrightarrow>
   snd (committed_run es s) = [] \<and> quizResult (fst (committed_run es s)) = quizResult s \<and>
   selectedOption (fst (committed_run es s)) = selectedOption s"
proof (induction es arbitrary: s)
  case Nil
  then show ?case by simp
next
  case (Cons e es)
  from Cons.prems have k: "quizResult (fst (committed_step e s)) = quizResult s"
      "selectedOption (fst (committed_step e s)) = selectedOption s"
      "snd (committed_step e s) = None"
    using committed_step_keeps_answer[of s e] by simp_all
  have "quizResult (fst (committed_step e s)) \<noteq> None" using k(1) Cons.prems(2) by simp
  moreover have "no_reopen es (fst (committed_step e s))" using Cons.prems(3) by simp
  ultimately have ih: "snd (committed_run es (fst (committed_step e s))) = []"
      "quizResult (fst (committed_run es (fst (committed_step e s))))
         = quizResult (fst (committed_step e s))"
      "selectedOption (fst (committed_run es (fst (committed_step e s))))
         = selectedOption (fst (committed_step e s))"
    using Cons.IH[OF committed_step_fresh] by simp_all
  show ?case using k ih by (simp add: split_beta)
qed

lemma committed_run_at_most_one:
  "no_reopen es s \<Longrightarrow> length (snd (committed_run es s)) \<le> 1"
proof (induction es arbitrary: s)
  case Nil
  then show ?case by simp
next
  case (Cons e es)
  have nr: "no_reopen es (fst (committed_step e s))" using Cons.prems by simp
  show ?case
  proof (cases "snd (committed_step e s)")
    case None
    then show ?thesis using Cons.IH[OF nr] by (simp add: split_beta)
  next
    case (Some b)
    then have "quizResult (fst (committed_step e s)) \<noteq> None"
      using committed_step_call by blast
    then have "snd (committed_run es (fst (committed_step e s))) = []"
      using committed_run_after_answer[OF committed_step_fresh] nr by blast
    then show ?thesis using Some by (simp add: split_beta)
  qed
qed


subsection \<open>The scoreboard\<close>

text \<open>
  C9. Recording a quiz answer changes only the scoreboard entry of the current category,
  adding exactly 1 to exactly one of its two counters (\<open>correct\<close> for a right answer,
  \<open>wrong\<close> otherwise); every other category's entry and the current category itself are
  unchanged, and with no current category the whole state is unchanged.
\<close>

theorem handleQuizAnswer_frame:
  "(currentCategory s = None \<longrightarrow> handleQuizAnswer isCorrect s = s) \<and>
   (currentCategory s = Some c \<longrightarrow>
      (\<forall>c'. c' \<noteq> c \<longrightarrow> scores (handleQuizAnswer isCorrect s) c' = scores s c') \<and>
      currentCategory (handleQuizAnswer isCorrect s) = Some c \<and>
      (if isCorrect
       then correct (scores (handleQuizAnswer isCorrect s) c) = correct (scores s c) + 1 \<and>
            wrong (scores (handleQuizAnswer isCorrect s) c) = wrong (scores s c)
       else correct (scores (handleQuizAnswer isCorrect s) c) = correct (scores s c) \<and>
            wrong (scores (handleQuizAnswer isCorrect s) c) = wrong (scores s c) + 1))"
  by (simp add: handleQuizAnswer_def)

theorem handleQuizAnswer_frame_witness:
  "handleQuizAnswer True \<lparr>currentCategory = None, scores = initial_scores\<rparr>
     = \<lparr>currentCategory = None, scores = initial_scores\<rparr> \<and>
   scores (handleQuizAnswer False \<lparr>currentCategory = Some ART, scores = initial_scores\<rparr>) SPORTS
     = \<lparr>correct = 0, wrong = 0\<rparr> \<and>
   scores (handleQuizAnswer False \<lparr>currentCategory = Some ART, scores = initial_scores\<rparr>) ART
     = \<lparr>correct = 0, wrong = 1\<rparr>"
  using handleQuizAnswer_frame [of "\<lparr>currentCategory = None, scores = initial_scores\<rparr>" True ART]
    handleQuizAnswer_frame [of "\<lparr>currentCategory = Some ART, scores = initial_scores\<rparr>" False ART]
  by (simp add: initial_scores_def)

end
